theory Spec2Isabelle
  imports Complex_Main "HOL-Library.List_Lexorder" "HOL-Library.Option_ord"
begin

section \<open>Texts and request values\<close>

text \<open>
  A JavaScript string is modelled as the list of its Unicode code points. The document
  store orders strings by the bytes of their UTF-8 encoding, which is the lexicographic
  order of the code points, the order \<^theory_text>\<open>List_Lexorder\<close> gives to lists.
  \<open>str\<close> writes an ASCII literal of the source as such a list.
\<close>

type_synonym jstring = "nat list"

definition str :: "string \<Rightarrow> jstring" where
  "str s = map of_char s"

text \<open>
  The values a JSON or form body can hold in a field the handlers read without a cast
  (\<open>featured\<close>, \<open>increment\<close>). Numbers are kept as integers.
\<close>

datatype jsval =
    JUndefined
  | JNull
  | JBool bool
  | JNum int
  | JStr jstring
  | JArr "jsval list"
  | JObj "(jstring \<times> jsval) list"

text \<open>The truthiness JavaScript gives a value in a condition.\<close>

fun truthy :: "jsval \<Rightarrow> bool" where
  "truthy JUndefined = False"
| "truthy JNull = False"
| "truthy (JBool b) = b"
| "truthy (JNum n) = (n \<noteq> 0)"
| "truthy (JStr s) = (s \<noteq> [])"
| "truthy (JArr xs) = True"
| "truthy (JObj kvs) = True"

text \<open>
  \<open>String.prototype.trim\<close>, which the schema's \<open>trim: true\<close> setter and the tag
  splitting apply: it strips the white space and line terminators of ECMAScript from both
  ends.
\<close>

definition is_ws :: "nat \<Rightarrow> bool" where
  "is_ws c = (c \<in> {9, 10, 11, 12, 13, 32, 160, 5760, 8232, 8233, 8239, 8287, 12288, 65279}
     \<or> (8192 \<le> c \<and> c \<le> 8202))"

definition trim :: "jstring \<Rightarrow> jstring" where
  "trim s = rev (dropWhile is_ws (rev (dropWhile is_ws s)))"

text \<open>\<open>s.split(',')\<close>: the pieces between the separators; an empty string has one empty piece.\<close>

fun split_on :: "nat \<Rightarrow> jstring \<Rightarrow> jstring list" where
  "split_on c [] = [[]]"
| "split_on c (x # xs) =
     (if x = c then [] # split_on c xs
      else (case split_on c xs of
              [] \<Rightarrow> [[x]]
            | y # ys \<Rightarrow> (x # y) # ys))"

definition comma :: nat where
  "comma = 44"

section \<open>The portfolio schema (models/Portfolio.js)\<close>

text \<open>
  An \<open>ObjectId\<close> is kept in the form \<open>toString\<close> prints it: 24 lower-case hexadecimal
  digits. \<open>ObjectId.isValid\<close> is modelled on strings as the check for 24 hexadecimal
  digits, and the cast of a request's id folds upper-case digits to lower case.
\<close>

type_synonym objid = jstring

definition is_hex :: "nat \<Rightarrow> bool" where
  "is_hex c = ((48 \<le> c \<and> c \<le> 57) \<or> (97 \<le> c \<and> c \<le> 102) \<or> (65 \<le> c \<and> c \<le> 70))"

definition isValid :: "jstring \<Rightarrow> bool" where
  "isValid s = (length s = 24 \<and> list_all is_hex s)"

definition castObjectId :: "jstring \<Rightarrow> objid" where
  "castObjectId s = map (\<lambda>c. if 65 \<le> c \<and> c \<le> 70 then c + 32 else c) s"

text \<open>
  One document of the collection. \<open>title\<close>, \<open>description\<close>, \<open>url\<close> and \<open>category\<close>
  have no default in the schema and are \<open>None\<close> while undefined; \<open>image_field\<close> is the
  schema's legacy \<open>image\<close> path; \<open>views\<close> and \<open>likes\<close> are integers (the counters stay
  far below \<open>2^53\<close>, where JavaScript numbers are exact) and \<open>createdAt\<close> is the creation
  time in milliseconds. \<open>updatedAt\<close>, which no code of the repository reads, is left out.
\<close>

record portfolio =
  pid :: objid
  title :: "jstring option"
  description :: "jstring option"
  image_field :: jstring
  imageId :: "objid option"
  imageBase64 :: jstring
  url :: "jstring option"
  category :: "jstring option"
  tags :: "jstring list"
  featured :: bool
  views :: int
  likes :: int
  createdAt :: int

text \<open>A document as \<open>new Portfolio({})\<close> fills it: every path at its schema default.\<close>

definition blank :: "objid \<Rightarrow> portfolio" where
  "blank i = \<lparr>pid = i, title = None, description = None, image_field = [], imageId = None,
     imageBase64 = [], url = None, category = None, tags = [], featured = False,
     views = 0, likes = 0, createdAt = 0\<rparr>"

text \<open>The virtual \<open>imageUrl\<close>.\<close>

definition imageUrl :: "portfolio \<Rightarrow> jstring" where
  "imageUrl p =
     (if imageBase64 p \<noteq> [] then imageBase64 p
      else (case imageId p of
              Some i \<Rightarrow> str ''/api/portfolio/image/'' @ i
            | None \<Rightarrow> if image_field p \<noteq> [] then image_field p else []))"

text \<open>
  The instance methods \<open>incrementViews\<close> and \<open>toggleLike\<close> change the document in
  memory and then return \<open>this.save()\<close>. The functions below are the change in memory;
  the handlers that call them pass the result to \<open>save\<close>.
\<close>

definition incrementViews :: "portfolio \<Rightarrow> portfolio" where
  "incrementViews p = p\<lparr>views := views p + 1\<rparr>"

definition toggleLike :: "jsval \<Rightarrow> portfolio \<Rightarrow> portfolio" where
  "toggleLike increment p =
     (let inc = (if increment = JUndefined then JBool True else increment);
          l = likes p + (if truthy inc then 1 else - 1)
      in p\<lparr>likes := (if l < 0 then 0 else l)\<rparr>)"

section \<open>Schema validation\<close>

text \<open>
  What the code relies on without defining it: the URL parser behind \<open>new URL(v)\<close> and
  the store's full-text index behind \<open>$text\<close>. Both are parameters of the model.
\<close>

record lib =
  url_parses :: "jstring \<Rightarrow> bool"
  text_match :: "jstring \<Rightarrow> portfolio \<Rightarrow> bool"

text \<open>
  The validators of the schema, one constructor per message. A path reports its first
  failing validator; \<open>required\<close> comes first and rejects an undefined or empty string.
  \<open>maxlength\<close> compares the JavaScript length, which counts a code point beyond the
  basic plane twice.
\<close>

datatype verr =
    TitleRequired
  | TitleTooLong
  | DescriptionRequired
  | DescriptionTooLong
  | UrlInvalid
  | CategoryRequired
  | CategoryInvalid
  | TagTooLong nat

definition js_length :: "jstring \<Rightarrow> nat" where
  "js_length s = sum_list (map (\<lambda>c. if 65536 \<le> c then 2 else 1) s)"

text \<open>
  The seven values of the \<open>category\<close> enum in the schema's order: AI/ML, enterprise,
  IoT, platform, benchmark, data, OCR; the Korean names by their code points.
\<close>

definition categories :: "jstring list" where
  "categories =
     [str ''AI/ML'',
      [50644, 53552, 54532, 46972, 51060, 51592],
      str ''IoT'',
      [54540, 47019, 54268],
      [48292, 52824, 47560, 53356],
      [45936, 51060, 53552],
      str ''OCR'']"

definition validate_title :: "jstring option \<Rightarrow> verr list" where
  "validate_title t =
     (case t of
        None \<Rightarrow> [TitleRequired]
      | Some s \<Rightarrow> if s = [] then [TitleRequired]
                  else if 200 < js_length s then [TitleTooLong] else [])"

definition validate_description :: "jstring option \<Rightarrow> verr list" where
  "validate_description t =
     (case t of
        None \<Rightarrow> [DescriptionRequired]
      | Some s \<Rightarrow> if s = [] then [DescriptionRequired]
                  else if 2000 < js_length s then [DescriptionTooLong] else [])"

definition validate_url :: "lib \<Rightarrow> jstring option \<Rightarrow> verr list" where
  "validate_url L u =
     (case u of
        None \<Rightarrow> []
      | Some v \<Rightarrow> if v = [] \<or> url_parses L v then [] else [UrlInvalid])"

definition validate_category :: "jstring option \<Rightarrow> verr list" where
  "validate_category c =
     (case c of
        None \<Rightarrow> [CategoryRequired]
      | Some s \<Rightarrow> if s = [] then [CategoryRequired]
                  else if s \<in> set categories then [] else [CategoryInvalid])"

definition validate_tags :: "jstring list \<Rightarrow> verr list" where
  "validate_tags ts =
     map (\<lambda>(i, t). TagTooLong i) (filter (\<lambda>(i, t). 50 < js_length t) (enumerate 0 ts))"

definition validate :: "lib \<Rightarrow> portfolio \<Rightarrow> verr list" where
  "validate L p =
     validate_title (title p) @ validate_description (description p) @ validate_url L (url p)
       @ validate_category (category p) @ validate_tags (tags p)"

section \<open>The stores\<close>

text \<open>
  The state the handlers share: the portfolio collection in insertion order, the files of
  the GridFS bucket \<open>portfolio_images\<close>, and whether \<open>mongoose.connection.db\<close> is set.
\<close>

record upload =
  buffer :: "nat list"
  originalname :: jstring
  mimetype :: jstring

record world =
  docs :: "portfolio list"
  gridfs_connected :: bool
  gridfs_files :: "(objid \<times> upload) list"

datatype failure = NoConnection | FileNotFound | StoreRejected

text \<open>The replies of the handlers that are not a success: 400, 404, 400 with details, 500.\<close>

datatype error = BadId | NotFound | ValidationFailed "verr list" | ServerError

text \<open>middleware/upload.js. \<open>fileId\<close> is the id the bucket gives the new file.\<close>

definition saveToGridFS :: "upload \<Rightarrow> objid \<Rightarrow> world \<Rightarrow> failure + (objid \<times> world)" where
  "saveToGridFS f fileId w =
     (if \<not> gridfs_connected w then Inl NoConnection
      else Inr (fileId, w\<lparr>gridfs_files := gridfs_files w @ [(fileId, f)]\<rparr>))"

definition deleteFromGridFS :: "objid \<Rightarrow> world \<Rightarrow> failure + world" where
  "deleteFromGridFS fileId w =
     (if \<not> gridfs_connected w then Inl NoConnection
      else if fileId \<notin> fst ` set (gridfs_files w) then Inl FileNotFound
      else Inr (w\<lparr>gridfs_files := filter (\<lambda>(i, f). i \<noteq> fileId) (gridfs_files w)\<rparr>))"

text \<open>
  The \<open>try { await deleteFromGridFS(id) } catch { console.warn(...) }\<close> of the update
  and delete handlers: a rejection leaves the state as it was and is not passed on.
\<close>

definition tryDelete :: "objid option \<Rightarrow> world \<Rightarrow> world" where
  "tryDelete i w =
     (case i of
        None \<Rightarrow> w
      | Some fileId \<Rightarrow> (case deleteFromGridFS fileId w of Inl e \<Rightarrow> w | Inr w' \<Rightarrow> w'))"

text \<open>The model's calls on the collection.\<close>

definition findById :: "jstring \<Rightarrow> world \<Rightarrow> portfolio option" where
  "findById i w = find (\<lambda>p. pid p = castObjectId i) (docs w)"

fun remove_first :: "('a \<Rightarrow> bool) \<Rightarrow> 'a list \<Rightarrow> 'a list" where
  "remove_first P [] = []"
| "remove_first P (x # xs) = (if P x then xs else x # remove_first P xs)"

definition findByIdAndDelete :: "jstring \<Rightarrow> world \<Rightarrow> world" where
  "findByIdAndDelete i w = w\<lparr>docs := remove_first (\<lambda>p. pid p = castObjectId i) (docs w)\<rparr>"

text \<open>
  \<open>save()\<close> validates the document against the schema; a valid new document is appended
  to the collection, a valid loaded one replaces the stored document of its id.
\<close>

definition save_new :: "lib \<Rightarrow> portfolio \<Rightarrow> world \<Rightarrow> verr list + world" where
  "save_new L p w =
     (case validate L p of
        [] \<Rightarrow> Inr (w\<lparr>docs := docs w @ [p]\<rparr>)
      | e # es \<Rightarrow> Inl (e # es))"

definition save :: "lib \<Rightarrow> portfolio \<Rightarrow> world \<Rightarrow> verr list + world" where
  "save L p w =
     (case validate L p of
        [] \<Rightarrow> Inr (w\<lparr>docs := map (\<lambda>q. if pid q = pid p then p else q) (docs w)\<rparr>)
      | e # es \<Rightarrow> Inl (e # es))"

section \<open>The query composer\<close>

text \<open>
  The \<open>filters\<close> object the list handler builds and \<open>findWithFilters\<close> reads; a key
  the handler did not set is \<open>None\<close>.
\<close>

record filters =
  f_category :: "jstring option"
  f_tags :: "jstring list option"
  f_search :: "jstring option"
  f_sort :: "jstring option"
  f_featured :: "bool option"

text \<open>
  A query as \<open>find\<close>, \<open>sort\<close>, \<open>skip\<close> and \<open>limit\<close> build it: the conditions (a key that
  is not set is \<open>None\<close>), the sort keys in their order, each ascending (\<open>1\<close>) or
  descending (\<open>-1\<close>), and the options.
\<close>

datatype sfield = SFeatured | SCreatedAt | SViews | SLikes | STitle

datatype dir = Asc | Desc

record mquery =
  q_category :: "jstring option"
  q_tags :: "jstring list option"
  q_text :: "jstring option"
  q_featured :: "bool option"
  q_sort :: "(sfield \<times> dir) list"
  q_skip :: "int option"
  q_limit :: "int option"

definition find_query :: "jstring option \<Rightarrow> jstring list option \<Rightarrow> jstring option
    \<Rightarrow> bool option \<Rightarrow> mquery" where
  "find_query c ts s f =
     \<lparr>q_category = c, q_tags = ts, q_text = s, q_featured = f, q_sort = [],
      q_skip = None, q_limit = None\<rparr>"

definition sort_q :: "(sfield \<times> dir) list \<Rightarrow> mquery \<Rightarrow> mquery" where
  "sort_q ks q = q\<lparr>q_sort := ks\<rparr>"

definition skip :: "int \<Rightarrow> mquery \<Rightarrow> mquery" where
  "skip n q = q\<lparr>q_skip := Some n\<rparr>"

definition limit :: "int \<Rightarrow> mquery \<Rightarrow> mquery" where
  "limit n q = q\<lparr>q_limit := Some n\<rparr>"

text \<open>The names of the sort modes: newest, popularity, name, views.\<close>

definition sort_newest :: jstring where
  "sort_newest = [52572, 49888, 49692]"

definition sort_popular :: jstring where
  "sort_popular = [51064, 44592, 49692]"

definition sort_name :: jstring where
  "sort_name = [51060, 47492, 49692]"

definition sort_views :: jstring where
  "sort_views = [51312, 54924, 49692]"

text \<open>\<open>findWithFilters\<close> of models/Portfolio.js.\<close>

definition sort_keys :: "jstring option \<Rightarrow> (sfield \<times> dir) list" where
  "sort_keys m =
     (case m of
        None \<Rightarrow> [(SFeatured, Desc), (SCreatedAt, Desc)]
      | Some s \<Rightarrow>
          if s = [] then [(SFeatured, Desc), (SCreatedAt, Desc)]
          else if s = sort_newest then [(SFeatured, Desc), (SCreatedAt, Desc)]
          else if s = sort_popular then [(SFeatured, Desc), (SViews, Desc), (SLikes, Desc)]
          else if s = sort_name then [(SFeatured, Desc), (STitle, Asc)]
          else if s = sort_views then [(SFeatured, Desc), (SViews, Desc)]
          else [(SFeatured, Desc), (SCreatedAt, Desc)])"

definition conditions :: "filters \<Rightarrow> mquery" where
  "conditions f =
     find_query
       (case f_category f of None \<Rightarrow> None | Some c \<Rightarrow> if c = [] then None else Some c)
       (case f_tags f of None \<Rightarrow> None | Some ts \<Rightarrow> if 0 < length ts then Some ts else None)
       (case f_search f of None \<Rightarrow> None | Some t \<Rightarrow> if t = [] then None else Some t)
       (f_featured f)"

definition findWithFilters :: "filters \<Rightarrow> mquery" where
  "findWithFilters f = sort_q (sort_keys (f_sort f)) (conditions f)"

text \<open>
  \<open>findWithFilters\<close> of the serverless function api/portfolio/index.js: the same
  conditions, its own sort keys.
\<close>

definition api_sort_keys :: "jstring option \<Rightarrow> (sfield \<times> dir) list" where
  "api_sort_keys m =
     (case m of
        None \<Rightarrow> [(SCreatedAt, Desc)]
      | Some s \<Rightarrow>
          if s = [] then [(SCreatedAt, Desc)]
          else if s = sort_newest then [(SCreatedAt, Desc)]
          else if s = sort_popular then [(SFeatured, Desc), (SViews, Desc), (SLikes, Desc)]
          else if s = sort_name then [(STitle, Asc)]
          else if s = sort_views then [(SViews, Desc)]
          else [(SCreatedAt, Desc)])"

definition api_findWithFilters :: "filters \<Rightarrow> mquery" where
  "api_findWithFilters f = sort_q (api_sort_keys (f_sort f)) (conditions f)"

section \<open>Running a query\<close>

text \<open>Whether a document meets the conditions: equality, \<open>$in\<close> on the tags, \<open>$text\<close>.\<close>

definition matches :: "lib \<Rightarrow> mquery \<Rightarrow> portfolio \<Rightarrow> bool" where
  "matches L q p =
     ((case q_category q of None \<Rightarrow> True | Some c \<Rightarrow> category p = Some c)
      \<and> (case q_tags q of None \<Rightarrow> True | Some ts \<Rightarrow> list_ex (\<lambda>t. t \<in> set ts) (tags p))
      \<and> (case q_text q of None \<Rightarrow> True | Some s \<Rightarrow> text_match L s p)
      \<and> (case q_featured q of None \<Rightarrow> True | Some b \<Rightarrow> featured p = b))"

text \<open>
  The store compares two documents key by key: the first key on which they differ
  decides, by its direction. \<open>False < True\<close>, numbers and dates by value, a missing title
  before every string, strings by code points.
\<close>

fun field_lt :: "sfield \<Rightarrow> portfolio \<Rightarrow> portfolio \<Rightarrow> bool" where
  "field_lt SFeatured a b = (featured a < featured b)"
| "field_lt SCreatedAt a b = (createdAt a < createdAt b)"
| "field_lt SViews a b = (views a < views b)"
| "field_lt SLikes a b = (likes a < likes b)"
| "field_lt STitle a b = (title a < title b)"

fun before :: "(sfield \<times> dir) list \<Rightarrow> portfolio \<Rightarrow> portfolio \<Rightarrow> bool" where
  "before [] a b = True"
| "before ((f, d) # ks) a b =
     (if field_lt f a b then d = Asc
      else if field_lt f b a then d = Desc
      else before ks a b)"

text \<open>
  The sort itself: a stable insertion sort, so that documents the keys do not tell apart
  stay in collection order (the store promises no order among them).
\<close>

fun insert_by :: "('a \<Rightarrow> 'a \<Rightarrow> bool) \<Rightarrow> 'a \<Rightarrow> 'a list \<Rightarrow> 'a list" where
  "insert_by le x [] = [x]"
| "insert_by le x (y # ys) = (if le x y then x # y # ys else y # insert_by le x ys)"

definition sort_by :: "('a \<Rightarrow> 'a \<Rightarrow> bool) \<Rightarrow> 'a list \<Rightarrow> 'a list" where
  "sort_by le xs = foldr (insert_by le) xs []"

text \<open>
  Awaiting a query. The store rejects a negative \<open>skip\<close>; a \<open>limit\<close> of 0 is no
  limit, and a negative one is read as its absolute value.
\<close>

definition apply_limit :: "int option \<Rightarrow> 'a list \<Rightarrow> 'a list" where
  "apply_limit l xs =
     (case l of
        None \<Rightarrow> xs
      | Some n \<Rightarrow> if n = 0 then xs else take (nat \<bar>n\<bar>) xs)"

definition exec :: "lib \<Rightarrow> mquery \<Rightarrow> portfolio list \<Rightarrow> failure + portfolio list" where
  "exec L q ds =
     (let sorted_ds = sort_by (before (q_sort q)) (filter (matches L q) ds)
      in case q_skip q of
           None \<Rightarrow> Inr (apply_limit (q_limit q) sorted_ds)
         | Some n \<Rightarrow>
             if n < 0 then Inl StoreRejected
             else Inr (apply_limit (q_limit q) (drop (nat n) sorted_ds)))"

definition countDocuments :: "lib \<Rightarrow> mquery \<Rightarrow> portfolio list \<Rightarrow> int" where
  "countDocuments L q ds = int (length (filter (matches L q) ds))"

section \<open>The order the specification names\<close>

text \<open>
  The secondary order of a sort mode in the words of the specification, to compare the
  sort keys with: views then likes descending for popularity, title ascending for name,
  views descending for views, creation time descending for newest and for every other
  value of \<open>sort\<close>.
\<close>

definition secondary :: "jstring option \<Rightarrow> portfolio \<Rightarrow> portfolio \<Rightarrow> bool" where
  "secondary m a b =
     (if m = Some sort_popular then
        views b < views a \<or> (views a = views b \<and> likes b \<le> likes a)
      else if m = Some sort_name then title a \<le> title b
      else if m = Some sort_views then views b \<le> views a
      else createdAt b \<le> createdAt a)"

section \<open>The list handler (GET /)\<close>

text \<open>
  The query string of a list request. \<open>r_page\<close> and \<open>r_limit\<close> hold what \<open>parseInt\<close>
  reads from the parameter when it is present; a parameter that does not parse to a number
  is outside the model.
\<close>

record list_request =
  r_category :: "jstring option"
  r_tags :: "jstring option"
  r_search :: "jstring option"
  r_sort :: "jstring option"
  r_page :: "int option"
  r_limit :: "int option"
  r_featured :: "jstring option"

text \<open>
  \<open>Math.ceil(totalItems / limit)\<close> on integers: the division gives \<open>Infinity\<close>,
  \<open>-Infinity\<close> or \<open>NaN\<close> when the limit is 0, and a comparison with \<open>NaN\<close> is false.
\<close>

datatype jsnum = Fin int | PosInf | NegInf | NaN

definition ceil_div :: "int \<Rightarrow> int \<Rightarrow> jsnum" where
  "ceil_div n l =
     (if l = 0 then (if n = 0 then NaN else if 0 < n then PosInf else NegInf)
      else Fin \<lceil>real_of_int n / real_of_int l\<rceil>)"

fun js_less :: "int \<Rightarrow> jsnum \<Rightarrow> bool" where
  "js_less p (Fin t) = (p < t)"
| "js_less p PosInf = True"
| "js_less p NegInf = False"
| "js_less p NaN = False"

record pagination =
  currentPage :: int
  totalPages :: jsnum
  totalItems :: int
  itemsPerPage :: int
  hasNext :: bool
  hasPrev :: bool

record list_reply =
  l_data :: "portfolio list"
  l_pagination :: pagination

definition build_filters :: "list_request \<Rightarrow> filters" where
  "build_filters r =
     \<lparr>f_category = (case r_category r of None \<Rightarrow> None
                     | Some c \<Rightarrow> if c = [] then None else Some c),
      f_tags = (case r_tags r of None \<Rightarrow> None
                 | Some t \<Rightarrow> if t = [] then None else Some (split_on comma t)),
      f_search = (case r_search r of None \<Rightarrow> None
                   | Some t \<Rightarrow> if t = [] then None else Some t),
      f_sort = (let s = (case r_sort r of None \<Rightarrow> sort_newest | Some m \<Rightarrow> m)
                in if s = [] then None else Some s),
      f_featured = (case r_featured r of None \<Rightarrow> None
                     | Some v \<Rightarrow> Some (v = str ''true''))\<rparr>"

text \<open>
  The body of the handler, over the composer it calls: \<open>findWithFilters\<close> in
  routes/portfolio.js, the serverless function's own in api/portfolio/index.js.
\<close>

definition list_with :: "(filters \<Rightarrow> mquery) \<Rightarrow> lib \<Rightarrow> list_request \<Rightarrow> portfolio list
    \<Rightarrow> error + list_reply" where
  "list_with compose L r ds =
     (let fs = build_filters r;
          page = (case r_page r of None \<Rightarrow> 1 | Some n \<Rightarrow> n);
          lim = (case r_limit r of None \<Rightarrow> 10 | Some n \<Rightarrow> n);
          query = compose fs;
          skipn = (page - 1) * lim
      in case exec L (limit lim (skip skipn query)) ds of
           Inl e \<Rightarrow> Inl ServerError
         | Inr portfolios \<Rightarrow>
             let total = countDocuments L (compose fs) ds;
                 pages = ceil_div total lim
             in Inr \<lparr>l_data = portfolios,
                     l_pagination = \<lparr>currentPage = page, totalPages = pages,
                       totalItems = total, itemsPerPage = lim,
                       hasNext = js_less page pages, hasPrev = (1 < page)\<rparr>\<rparr>)"

definition list_handler :: "lib \<Rightarrow> list_request \<Rightarrow> world \<Rightarrow> (error + list_reply) \<times> world" where
  "list_handler L r w = (list_with findWithFilters L r (docs w), w)"

text \<open>
  The serverless function runs \<open>initializeDefaultData\<close> before every list: an empty
  collection is filled with the default portfolios. \<open>seeds\<close> stands for those nine
  documents as \<open>insertMany\<close> stores them.
\<close>

definition initializeDefaultData :: "portfolio list \<Rightarrow> world \<Rightarrow> world" where
  "initializeDefaultData seeds w = (if length (docs w) = 0 then w\<lparr>docs := seeds\<rparr> else w)"

definition api_list_handler :: "lib \<Rightarrow> portfolio list \<Rightarrow> list_request \<Rightarrow> world
    \<Rightarrow> (error + list_reply) \<times> world" where
  "api_list_handler L seeds r w =
     (let w1 = initializeDefaultData seeds w
      in (list_with api_findWithFilters L r (docs w1), w1))"

section \<open>The handlers on one entry (routes/portfolio.js)\<close>

text \<open>GET /:id.\<close>

definition get_handler :: "lib \<Rightarrow> jstring \<Rightarrow> world \<Rightarrow> (error + portfolio) \<times> world" where
  "get_handler L i w =
     (if \<not> isValid i then (Inl BadId, w)
      else (case findById i w of
              None \<Rightarrow> (Inl NotFound, w)
            | Some p \<Rightarrow>
                let p' = incrementViews p
                in (case save L p' w of
                      Inl es \<Rightarrow> (Inl ServerError, w)
                    | Inr w' \<Rightarrow> (Inr p', w'))))"

text \<open>POST /:id/like. The reply carries the new count.\<close>

definition like_handler :: "lib \<Rightarrow> jstring \<Rightarrow> jsval \<Rightarrow> world \<Rightarrow> (error + int) \<times> world" where
  "like_handler L i body_increment w =
     (let increment = (if body_increment = JUndefined then JBool True else body_increment)
      in if \<not> isValid i then (Inl BadId, w)
         else (case findById i w of
                 None \<Rightarrow> (Inl NotFound, w)
               | Some p \<Rightarrow>
                   let p' = toggleLike increment p
                   in (case save L p' w of
                         Inl es \<Rightarrow> (Inl ServerError, w)
                       | Inr w' \<Rightarrow> (Inr (likes p'), w'))))"

text \<open>DELETE /:id. The reply carries the id.\<close>

definition delete_handler :: "jstring \<Rightarrow> world \<Rightarrow> (error + jstring) \<times> world" where
  "delete_handler i w =
     (if \<not> isValid i then (Inl BadId, w)
      else (case findById i w of
              None \<Rightarrow> (Inl NotFound, w)
            | Some p \<Rightarrow>
                let w1 = tryDelete (imageId p) w
                in (Inr i, findByIdAndDelete i w1)))"

section \<open>Create and update (routes/portfolio.js)\<close>

text \<open>
  The body of a create or update request. The text fields are absent or strings, as a
  multipart form and the admin panel's JSON deliver them; \<open>tags\<close> is absent, a string or
  an array of strings; \<open>featured\<close> is any value. \<open>b_other\<close> holds the keys the handlers
  do not read.
\<close>

datatype tags_in = TagsAbsent | TagsString jstring | TagsArray "jstring list"

record body =
  b_title :: "jstring option"
  b_description :: "jstring option"
  b_url :: "jstring option"
  b_category :: "jstring option"
  b_tags :: tags_in
  b_featured :: jsval
  b_imageBase64 :: "jstring option"
  b_other :: "(jstring \<times> jsval) list"

text \<open>\<open>featured === 'true' || featured === true\<close>.\<close>

definition featured_flag :: "jsval \<Rightarrow> bool" where
  "featured_flag v = (v = JStr (str ''true'') \<or> v = JBool True)"

text \<open>
  POST /. \<open>newId\<close> is the id \<open>new Portfolio\<close> gives the document, \<open>fileId\<close> the id the
  bucket gives an uploaded file, \<open>now\<close> the time of the save. The setters of the schema
  trim the title, the description, the url and every tag.
\<close>

definition create_tags :: "tags_in \<Rightarrow> jstring list" where
  "create_tags t =
     (case t of
        TagsAbsent \<Rightarrow> []
      | TagsString s \<Rightarrow> if s = [] then [] else map trim (split_on comma s)
      | TagsArray ts \<Rightarrow> ts)"

definition new_Portfolio :: "objid \<Rightarrow> int \<Rightarrow> body \<Rightarrow> portfolio" where
  "new_Portfolio newId now b =
     (blank newId)\<lparr>title := map_option trim (b_title b),
       description := map_option trim (b_description b),
       url := map_option trim (b_url b),
       category := b_category b,
       tags := map trim (create_tags (b_tags b)),
       featured := featured_flag (b_featured b),
       createdAt := now\<rparr>"

definition finish_create :: "lib \<Rightarrow> portfolio \<Rightarrow> world \<Rightarrow> (error + portfolio) \<times> world" where
  "finish_create L p w =
     (case save_new L p w of
        Inl es \<Rightarrow> (Inl (ValidationFailed es), w)
      | Inr w' \<Rightarrow> (Inr p, w'))"

definition create_handler :: "lib \<Rightarrow> int \<Rightarrow> objid \<Rightarrow> objid \<Rightarrow> body \<Rightarrow> upload option \<Rightarrow> world
    \<Rightarrow> (error + portfolio) \<times> world" where
  "create_handler L now newId fileId b file w =
     (let portfolioData = new_Portfolio newId now b
      in case file of
           Some f \<Rightarrow>
             (case saveToGridFS f fileId w of
                Inl e \<Rightarrow> (Inl ServerError, w)
              | Inr (fid, w1) \<Rightarrow> finish_create L (portfolioData\<lparr>imageId := Some fid\<rparr>) w1)
         | None \<Rightarrow>
             (case b_imageBase64 b of
                None \<Rightarrow> finish_create L portfolioData w
              | Some s \<Rightarrow>
                  if s \<noteq> [] then finish_create L (portfolioData\<lparr>imageBase64 := s\<rparr>) w
                  else finish_create L portfolioData w))"

text \<open>
  PUT /:id. \<open>updateData\<close> holds the keys the body sets; \<open>Object.assign\<close> writes them to
  the loaded document through the schema's setters.
\<close>

definition update_tags :: "tags_in \<Rightarrow> jstring list option" where
  "update_tags t =
     (case t of
        TagsAbsent \<Rightarrow> None
      | TagsString s \<Rightarrow> Some (map trim (split_on comma s))
      | TagsArray ts \<Rightarrow> Some ts)"

definition assign_body :: "body \<Rightarrow> portfolio \<Rightarrow> portfolio" where
  "assign_body b p =
     p\<lparr>title := (case b_title b of None \<Rightarrow> title p | Some t \<Rightarrow> Some (trim t)),
       description := (case b_description b of None \<Rightarrow> description p | Some t \<Rightarrow> Some (trim t)),
       url := (case b_url b of None \<Rightarrow> url p | Some t \<Rightarrow> Some (trim t)),
       category := (case b_category b of None \<Rightarrow> category p | Some c \<Rightarrow> Some c),
       tags := (case update_tags (b_tags b) of None \<Rightarrow> tags p | Some ts \<Rightarrow> map trim ts),
       featured := (if b_featured b \<noteq> JUndefined then featured_flag (b_featured b)
                    else featured p)\<rparr>"

definition finish_update :: "lib \<Rightarrow> portfolio \<Rightarrow> world \<Rightarrow> (error + portfolio) \<times> world" where
  "finish_update L p w =
     (case save L p w of
        Inl es \<Rightarrow> (Inl (ValidationFailed es), w)
      | Inr w' \<Rightarrow> (Inr p, w'))"

definition update_handler :: "lib \<Rightarrow> objid \<Rightarrow> jstring \<Rightarrow> body \<Rightarrow> upload option \<Rightarrow> world
    \<Rightarrow> (error + portfolio) \<times> world" where
  "update_handler L fileId i b file w =
     (if \<not> isValid i then (Inl BadId, w)
      else (case findById i w of
              None \<Rightarrow> (Inl NotFound, w)
            | Some p \<Rightarrow>
                (case file of
                   Some f \<Rightarrow>
                     (let w1 = tryDelete (imageId p) w
                      in case saveToGridFS f fileId w1 of
                           Inl e \<Rightarrow> (Inl ServerError, w1)
                         | Inr (fid, w2) \<Rightarrow>
                             finish_update L
                               ((assign_body b p)\<lparr>imageId := Some fid, imageBase64 := []\<rparr>) w2)
                 | None \<Rightarrow>
                     (case b_imageBase64 b of
                        None \<Rightarrow> finish_update L (assign_body b p) w
                      | Some s \<Rightarrow>
                          if s \<noteq> [] then
                            (case imageId p of
                               None \<Rightarrow> finish_update L ((assign_body b p)\<lparr>imageBase64 := s\<rparr>) w
                             | Some old \<Rightarrow>
                                 finish_update L
                                   ((assign_body b p)\<lparr>imageBase64 := s, imageId := None\<rparr>)
                                   (tryDelete (Some old) w))
                          else finish_update L (assign_body b p) w))))"

text \<open>The document the update handler saves, when it gets that far.\<close>

definition updated :: "objid \<Rightarrow> body \<Rightarrow> upload option \<Rightarrow> portfolio \<Rightarrow> portfolio" where
  "updated fileId b file p =
     (case file of
        Some f \<Rightarrow> (assign_body b p)\<lparr>imageId := Some fileId, imageBase64 := []\<rparr>
      | None \<Rightarrow>
          (case b_imageBase64 b of
             None \<Rightarrow> assign_body b p
           | Some s \<Rightarrow>
               if s = [] then assign_body b p
               else (assign_body b p)\<lparr>imageBase64 := s, imageId := None\<rparr>))"

section \<open>Sample data\<close>

text \<open>Concrete ids, entries and library behaviour for the instances below.\<close>

definition id1 :: objid where
  "id1 = str ''64b7f0a1c2d3e4f5a6b7c8d1''"

definition id2 :: objid where
  "id2 = str ''64b7f0a1c2d3e4f5a6b7c8d2''"

definition id3 :: objid where
  "id3 = str ''64b7f0a1c2d3e4f5a6b7c8d3''"

definition id4 :: objid where
  "id4 = str ''64b7f0a1c2d3e4f5a6b7c8d4''"

definition lib0 :: lib where
  "lib0 = \<lparr>url_parses = (\<lambda>u. True), text_match = (\<lambda>s p. False)\<rparr>"

definition entry :: "objid \<Rightarrow> string \<Rightarrow> bool \<Rightarrow> int \<Rightarrow> portfolio" where
  "entry i t f c =
     (blank i)\<lparr>title := Some (str t), description := Some (str ''demo''),
       category := Some (str ''AI/ML''), featured := f, createdAt := c\<rparr>"

definition world0 :: world where
  "world0 = \<lparr>docs = [entry id1 ''Alpha'' True 1, entry id2 ''Beta'' False 2],
     gridfs_connected = True, gridfs_files = []\<rparr>"

definition png :: upload where
  "png = \<lparr>buffer = [137, 80, 78, 71], originalname = str ''a.png'', mimetype = str ''image/png''\<rparr>"

definition world1 :: world where
  "world1 = \<lparr>docs = [(entry id1 ''Alpha'' True 1)\<lparr>imageId := Some id3\<rparr>],
     gridfs_connected = True, gridfs_files = [(id3, png)]\<rparr>"

definition body0 :: body where
  "body0 = \<lparr>b_title = None, b_description = None, b_url = None, b_category = None,
     b_tags = TagsAbsent, b_featured = JUndefined, b_imageBase64 = None, b_other = []\<rparr>"

definition body1 :: "jsval \<Rightarrow> body" where
  "body1 v = body0\<lparr>b_title := Some (str ''Gamma''), b_description := Some (str ''demo''),
     b_category := Some (str ''AI/ML''), b_featured := v\<rparr>"

definition request0 :: list_request where
  "request0 = \<lparr>r_category = None, r_tags = None, r_search = None, r_sort = None,
     r_page = None, r_limit = None, r_featured = None\<rparr>"

section \<open>Supporting lemmas\<close>

text \<open>The like counter.\<close>

lemma toggleLike_nonneg: "0 \<le> likes (toggleLike v p)"
  by (simp add: toggleLike_def Let_def)

lemma fold_toggleLike_nonneg: "0 \<le> likes p \<Longrightarrow> 0 \<le> likes (fold toggleLike vs p)"
  by (induction vs arbitrary: p) (simp_all add: toggleLike_nonneg)

text \<open>Evaluating literals.\<close>

lemma str_simps: "str [] = []" "str (c # cs) = of_char c # str cs"
  by (simp_all add: str_def)

lemma find_replace:
  "find (\<lambda>q. pid q = k) xs = Some p0 \<Longrightarrow> pid p' = k \<Longrightarrow>
   find (\<lambda>q. pid q = k) (map (\<lambda>q. if pid q = pid p' then p' else q) xs) = Some p'"
  by (induction xs) (auto split: if_splits)

lemma find_pid: "find (\<lambda>q. pid q = k) xs = Some p \<Longrightarrow> pid p = k"
  by (induction xs) (auto split: if_splits)

lemma find_mem: "find P xs = Some p \<Longrightarrow> p \<in> set xs"
  by (induction xs) (auto split: if_splits)

lemma findById_pid: "findById i w = Some p \<Longrightarrow> pid p = castObjectId i"
  by (auto simp: findById_def dest: find_pid)

lemma save_Inr:
  "save L p w = Inr w' \<longleftrightarrow>
     validate L p = [] \<and> w' = w\<lparr>docs := map (\<lambda>q. if pid q = pid p then p else q) (docs w)\<rparr>"
  by (auto simp: save_def split: list.splits)

lemma findById_save:
  assumes "findById i w = Some p0" "pid p = pid p0" "save L p w = Inr w'"
  shows "findById i w' = Some p"
proof -
  have k: "pid p = castObjectId i"
    using assms(1,2) by (simp add: findById_pid)
  have "docs w' = map (\<lambda>q. if pid q = pid p then p else q) (docs w)"
    using assms(3) by (simp add: save_Inr)
  then show ?thesis
    using find_replace [of "castObjectId i" "docs w" p0 p] assms(1) k
    by (simp add: findById_def)
qed

lemma incrementViews_simps [simp]:
  "pid (incrementViews p) = pid p" "views (incrementViews p) = views p + 1"
  by (simp_all add: incrementViews_def)

lemma validate_incrementViews: "validate L (incrementViews p) = validate L p"
  by (simp add: validate_def incrementViews_def)

lemma get_handler_ok:
  assumes "isValid i" "findById i w = Some p" "validate L p = []"
  shows "get_handler L i w = (Inr (incrementViews p),
           w\<lparr>docs := map (\<lambda>q. if pid q = pid p then incrementViews p else q) (docs w)\<rparr>)"
  using assms by (simp add: get_handler_def Let_def save_def validate_incrementViews)

lemma get_handler_ok_find:
  assumes "isValid i" "findById i w = Some p" "validate L p = []"
  shows "findById i (snd (get_handler L i w)) = Some (incrementViews p)"
proof -
  have "save L (incrementViews p) w = Inr (snd (get_handler L i w))"
    using assms by (simp add: get_handler_ok save_Inr validate_incrementViews)
  then show ?thesis
    using findById_save [of i w p "incrementViews p" L] assms(2) by simp
qed

text \<open>The sample data.\<close>

lemma isValid_ids: "isValid id1" "isValid id2" "isValid id3"
  by (simp_all add: isValid_def id1_def id2_def id3_def str_def is_hex_def)

lemma cast_ids: "castObjectId id1 = id1" "castObjectId id2 = id2" "castObjectId id3 = id3"
  by (simp_all add: castObjectId_def id1_def id2_def id3_def str_def)

lemma ids_distinct: "id1 \<noteq> id2" "id1 \<noteq> id3" "id2 \<noteq> id3" "id2 \<noteq> id1" "id3 \<noteq> id1" "id3 \<noteq> id2"
  by (simp_all add: id1_def id2_def id3_def str_def)

lemma entry_simps [simp]:
  "pid (entry i t f c) = i" "views (entry i t f c) = 0" "likes (entry i t f c) = 0"
  "featured (entry i t f c) = f" "createdAt (entry i t f c) = c"
  "title (entry i t f c) = Some (str t)"
  "imageId (entry i t f c) = None" "imageBase64 (entry i t f c) = []"
  "image_field (entry i t f c) = []" "tags (entry i t f c) = []"
  "category (entry i t f c) = Some (str ''AI/ML'')"
  "url (entry i t f c) = None"
  "description (entry i t f c) = Some (str ''demo'')"
  by (simp_all add: entry_def blank_def)

lemma js_length_str: "js_length (str t) = length t"
proof (induction t)
  case Nil
  then show ?case by (simp add: js_length_def str_def)
next
  case (Cons c t)
  have "\<not> 65536 \<le> (of_char c :: nat)"
    using nat_of_char_less_256 [of c] by linarith
  with Cons show ?case
    by (simp add: js_length_def str_def)
qed

lemma str_eq_Nil [simp]: "str t = [] \<longleftrightarrow> t = []"
  by (simp add: str_def)

lemma validate_entry: "t \<noteq> [] \<Longrightarrow> length t \<le> 200 \<Longrightarrow> validate lib0 (entry i t f c) = []"
  by (simp add: validate_def validate_title_def validate_description_def validate_url_def
      validate_category_def validate_tags_def categories_def js_length_str)

lemma findById_world0:
  "findById id1 world0 = Some (entry id1 ''Alpha'' True 1)"
  "findById id2 world0 = Some (entry id2 ''Beta'' False 2)"
  "findById id3 world0 = None"
  by (simp_all add: findById_def world0_def cast_ids ids_distinct)

text \<open>What a successful create or update did.\<close>

lemma save_new_Inr:
  "save_new L p w = Inr w' \<longleftrightarrow> validate L p = [] \<and> w' = w\<lparr>docs := docs w @ [p]\<rparr>"
  by (auto simp: save_new_def split: list.splits)

lemma finish_create_Inr:
  "finish_create L p w = (Inr p', w') \<longleftrightarrow>
     p' = p \<and> validate L p = [] \<and> w' = w\<lparr>docs := docs w @ [p]\<rparr>"
  by (auto simp: finish_create_def save_new_def split: sum.splits list.splits)

lemma finish_update_Inr:
  "finish_update L p w = (Inr p', w') \<longleftrightarrow> p' = p \<and> save L p w = Inr w'"
  by (cases "save L p w") (auto simp: finish_update_def)

lemma finish_update_Inl:
  "finish_update L p w = (Inl e, w') \<Longrightarrow> w' = w"
  by (auto simp: finish_update_def split: sum.splits)

lemma new_Portfolio_simps [simp]:
  "featured (new_Portfolio newId now b) = featured_flag (b_featured b)"
  "pid (new_Portfolio newId now b) = newId"
  "views (new_Portfolio newId now b) = 0"
  "likes (new_Portfolio newId now b) = 0"
  by (simp_all add: new_Portfolio_def blank_def)

lemma create_handler_Inr:
  assumes "create_handler L now newId fileId b upl w = (Inr p, w')"
  shows "featured p = featured_flag (b_featured b) \<and> last (docs w') = p
         \<and> pid p = newId \<and> views p = 0 \<and> likes p = 0"
proof (cases "upl")
  case None
  with assms show ?thesis
    by (cases "b_imageBase64 b")
      (auto simp: create_handler_def Let_def finish_create_Inr split: if_splits)
next
  case (Some f)
  with assms show ?thesis
    by (cases "gridfs_connected w")
      (auto simp: create_handler_def Let_def finish_create_Inr saveToGridFS_def)
qed

lemma assign_body_simps [simp]:
  "pid (assign_body b p) = pid p"
  "views (assign_body b p) = views p"
  "likes (assign_body b p) = likes p"
  "createdAt (assign_body b p) = createdAt p"
  "image_field (assign_body b p) = image_field p"
  "imageId (assign_body b p) = imageId p"
  "imageBase64 (assign_body b p) = imageBase64 p"
  by (simp_all add: assign_body_def)

lemma imageId_None_update:
  "imageId r = None \<Longrightarrow> r\<lparr>imageBase64 := a, imageId := None\<rparr> = r\<lparr>imageBase64 := a\<rparr>"
  by (cases r) simp

lemma tryDelete_docs [simp]: "docs (tryDelete i w) = docs w"
  by (auto simp: tryDelete_def deleteFromGridFS_def split: option.splits)

lemma update_handler_Inr:
  assumes "update_handler L fileId i b upl w = (Inr p', w')" "findById i w = Some p"
  shows "p' = updated fileId b upl p
         \<and> docs w' = map (\<lambda>q. if pid q = pid p then p' else q) (docs w)
         \<and> validate L p' = []"
proof -
  from assms have v: "isValid i"
    by (auto simp: update_handler_def split: if_splits)
  show ?thesis
  proof (cases "upl")
    case None
    with assms v show ?thesis
      by (cases "b_imageBase64 b"; cases "imageId p")
        (auto simp: update_handler_def finish_update_Inr save_Inr updated_def
          imageId_None_update split: if_splits)
  next
    case (Some f)
    with assms v show ?thesis
      by (cases "gridfs_connected (tryDelete (imageId p) w)")
        (auto simp: update_handler_def Let_def finish_update_Inr save_Inr updated_def
          saveToGridFS_def)
  qed
qed

lemma update_handler_Inr_found:
  assumes "update_handler L fileId i b upl w = (Inr p', w')"
  shows "isValid i \<and> (\<exists>p. findById i w = Some p)"
  using assms by (auto simp: update_handler_def split: if_splits option.splits)

lemma update_handler_Inl:
  assumes "update_handler L fileId i b upl w = (Inl e, w')"
  shows "docs w' = docs w"
proof (cases "isValid i")
  case False
  with assms show ?thesis by (simp add: update_handler_def)
next
  case True
  show ?thesis
  proof (cases "findById i w")
    case None
    with assms True show ?thesis by (simp add: update_handler_def)
  next
    case (Some p)
    show ?thesis
    proof (cases "upl")
      case None
      with assms True Some show ?thesis
        by (cases "b_imageBase64 b"; cases "imageId p")
          (auto simp: update_handler_def split: if_splits dest!: finish_update_Inl)
    next
      case f: (Some f)
      with assms True Some show ?thesis
        by (cases "gridfs_connected (tryDelete (imageId p) w)")
          (auto simp: update_handler_def Let_def saveToGridFS_def dest!: finish_update_Inl)
    qed
  qed
qed

lemma findById_update:
  assumes "update_handler L fileId i b upl w = (Inr p', w')"
  shows "findById i w' = Some p'"
proof -
  from update_handler_Inr_found [OF assms] obtain p where p: "findById i w = Some p"
    by blast
  from update_handler_Inr [OF assms p]
  have u: "p' = updated fileId b upl p"
    and d: "docs w' = map (\<lambda>q. if pid q = pid p then p' else q) (docs w)"
    by simp_all
  have k: "pid p' = pid p"
    by (simp add: u updated_def split: option.splits)
  have "pid p = castObjectId i"
    using p by (rule findById_pid)
  then show ?thesis
    using find_replace [of "castObjectId i" "docs w" p p'] p k d
    by (simp add: findById_def)
qed

lemma assign_body_fields:
  "title (assign_body b p) = (case b_title b of None \<Rightarrow> title p | Some t \<Rightarrow> Some (trim t))"
  "description (assign_body b p) =
     (case b_description b of None \<Rightarrow> description p | Some t \<Rightarrow> Some (trim t))"
  "url (assign_body b p) = (case b_url b of None \<Rightarrow> url p | Some t \<Rightarrow> Some (trim t))"
  "category (assign_body b p) = (case b_category b of None \<Rightarrow> category p | Some c \<Rightarrow> Some c)"
  "tags (assign_body b p) =
     (case update_tags (b_tags b) of None \<Rightarrow> tags p | Some ts \<Rightarrow> map trim ts)"
  "featured (assign_body b p) =
     (if b_featured b \<noteq> JUndefined then featured_flag (b_featured b) else featured p)"
  by (simp_all add: assign_body_def)

lemma updated_simps [simp]:
  "pid (updated fileId b upl p) = pid p"
  "views (updated fileId b upl p) = views p"
  "likes (updated fileId b upl p) = likes p"
  "createdAt (updated fileId b upl p) = createdAt p"
  "image_field (updated fileId b upl p) = image_field p"
  "title (updated fileId b upl p) = title (assign_body b p)"
  "description (updated fileId b upl p) = description (assign_body b p)"
  "url (updated fileId b upl p) = url (assign_body b p)"
  "category (updated fileId b upl p) = category (assign_body b p)"
  "tags (updated fileId b upl p) = tags (assign_body b p)"
  "featured (updated fileId b upl p) = featured (assign_body b p)"
  by (simp_all add: updated_def split: option.splits)

lemma updated_image:
  "imageId (updated fileId b upl p) =
     (case upl of Some f \<Rightarrow> Some fileId
      | None \<Rightarrow> (case b_imageBase64 b of None \<Rightarrow> imageId p
                  | Some s \<Rightarrow> if s = [] then imageId p else None))"
  "imageBase64 (updated fileId b upl p) =
     (case upl of Some f \<Rightarrow> []
      | None \<Rightarrow> (case b_imageBase64 b of None \<Rightarrow> imageBase64 p
                  | Some s \<Rightarrow> if s = [] then imageBase64 p else s))"
  by (simp_all add: updated_def split: option.splits)

text \<open>More sample data.\<close>

lemma trim_samples [simp]:
  "trim (str ''Gamma'') = str ''Gamma''" "trim (str ''demo'') = str ''demo''"
  by (simp_all add: trim_def str_def is_ws_def)

lemma validate_fields:
  "title p = Some (str t) \<Longrightarrow> t \<noteq> [] \<Longrightarrow> length t \<le> 200 \<Longrightarrow>
   description p = Some (str ''demo'') \<Longrightarrow> url p = None \<Longrightarrow>
   category p = Some (str ''AI/ML'') \<Longrightarrow> tags p = [] \<Longrightarrow> validate L p = []"
  by (simp add: validate_def validate_title_def validate_description_def validate_url_def
      validate_category_def validate_tags_def categories_def js_length_str)

lemma create_body1:
  "create_handler lib0 5 id3 id3 (body1 v) None world0 =
     (Inr (new_Portfolio id3 5 (body1 v)), world0\<lparr>docs := docs world0 @ [new_Portfolio id3 5 (body1 v)]\<rparr>)"
proof -
  have "validate lib0 (new_Portfolio id3 5 (body1 v)) = []"
    by (rule validate_fields [of _ "''Gamma''"])
      (simp_all add: new_Portfolio_def body1_def body0_def blank_def create_tags_def)
  moreover have "b_imageBase64 (body1 v) = None"
    by (simp add: body1_def body0_def)
  ultimately show ?thesis
    by (simp add: create_handler_def finish_create_def save_new_def Let_def)
qed

lemma docs_world0: "docs world0 = [entry id1 ''Alpha'' True 1, entry id2 ''Beta'' False 2]"
  by (simp add: world0_def)

lemma update_world0:
  "update_handler lib0 id3 id2 (body0\<lparr>b_featured := v\<rparr>) None world0 =
     (Inr (updated id3 (body0\<lparr>b_featured := v\<rparr>) None (entry id2 ''Beta'' False 2)),
      world0\<lparr>docs := [entry id1 ''Alpha'' True 1,
         updated id3 (body0\<lparr>b_featured := v\<rparr>) None (entry id2 ''Beta'' False 2)]\<rparr>)"
proof -
  let ?b = "body0\<lparr>b_featured := v\<rparr>"
  have i: "b_imageBase64 ?b = None"
    by (simp add: body0_def)
  have u: "updated id3 ?b None (entry id2 ''Beta'' False 2) = assign_body ?b (entry id2 ''Beta'' False 2)"
    by (simp add: updated_def i)
  have "validate lib0 (assign_body ?b (entry id2 ''Beta'' False 2)) = []"
    by (rule validate_fields [of _ "''Beta''"])
      (simp_all add: assign_body_fields body0_def update_tags_def)
  then show ?thesis
    by (simp add: update_handler_def finish_update_def save_def isValid_ids findById_world0
        i u docs_world0 ids_distinct)
qed

text \<open>Replacing one document, and the blob store after an update or a delete.\<close>

lemma map_replace_same:
  assumes "distinct (map pid xs)" "p \<in> set xs" "g p' = g p"
  shows "map g (map (\<lambda>q. if pid q = pid p then p' else q) xs) = map g xs"
proof -
  have "g (if pid q = pid p then p' else q) = g q" if "q \<in> set xs" for q
  proof (cases "pid q = pid p")
    case True
    with assms(1,2) that have "q = p"
      by (meson distinct_map inj_onD)
    with assms(3) True show ?thesis by simp
  next
    case False
    then show ?thesis by simp
  qed
  then show ?thesis
    by (simp add: comp_def)
qed

lemma findById_mem: "findById i w = Some p \<Longrightarrow> p \<in> set (docs w)"
  by (auto simp: findById_def dest: find_mem)

lemma tryDelete_connected [simp]: "gridfs_connected (tryDelete k w) = gridfs_connected w"
  by (auto simp: tryDelete_def deleteFromGridFS_def split: option.splits)

lemma filter_absent: "k \<notin> fst ` set xs \<Longrightarrow> filter (\<lambda>(j, u). j \<noteq> k) xs = xs"
  by (induction xs) auto

lemma tryDelete_files:
  "gridfs_files (tryDelete k w) =
     (if gridfs_connected w then filter (\<lambda>(j, u). Some j \<noteq> k) (gridfs_files w)
      else gridfs_files w)"
proof (cases k)
  case None
  then show ?thesis by (simp add: tryDelete_def)
next
  case (Some old)
  then show ?thesis
    by (simp add: tryDelete_def deleteFromGridFS_def filter_absent)
qed

lemma save_gridfs:
  "save L p w = Inr w' \<Longrightarrow> gridfs_files w' = gridfs_files w \<and> gridfs_connected w' = gridfs_connected w"
  by (simp add: save_Inr)

lemma update_handler_gridfs:
  assumes "update_handler L fileId i b upl w = (Inr p', w')" "findById i w = Some p"
  shows "(\<forall>f. upl = Some f \<longrightarrow> gridfs_connected w
            \<and> gridfs_files w' = gridfs_files (tryDelete (imageId p) w) @ [(fileId, f)])
         \<and> (\<forall>s. upl = None \<and> b_imageBase64 b = Some s \<and> s \<noteq> [] \<longrightarrow>
              gridfs_files w' = gridfs_files (tryDelete (imageId p) w))"
proof -
  from assms have v: "isValid i"
    by (auto simp: update_handler_def split: if_splits)
  show ?thesis
  proof (cases "upl")
    case None
    with assms v show ?thesis
      by (cases "b_imageBase64 b"; cases "imageId p")
        (auto simp: update_handler_def finish_update_Inr tryDelete_def
          dest!: save_gridfs split: if_splits)
  next
    case (Some f)
    with assms v show ?thesis
      by (cases "gridfs_connected (tryDelete (imageId p) w)")
        (auto simp: update_handler_def Let_def finish_update_Inr saveToGridFS_def
          dest!: save_gridfs)
  qed
qed

lemma find_holds: "find P xs = Some p \<Longrightarrow> P p"
  by (induction xs) (auto split: if_splits)

lemma remove_first_find: "find P xs = Some p \<Longrightarrow> remove_first P xs = remove1 p xs"
  by (induction xs) (auto split: if_splits dest: find_holds)

lemma find_None_iff_pid: "find (\<lambda>q. pid q = k) xs = None \<longleftrightarrow> k \<notin> pid ` set xs"
  by (induction xs) auto

lemma find_remove_first:
  "distinct (map pid xs) \<Longrightarrow> find (\<lambda>q. pid q = k) (remove_first (\<lambda>q. pid q = k) xs) = None"
  by (induction xs) (auto simp: find_None_iff_pid)

lemma delete_handler_ok:
  assumes "isValid i" "findById i w = Some p"
  shows "delete_handler i w = (Inr i, findByIdAndDelete i (tryDelete (imageId p) w))"
  using assms by (simp add: delete_handler_def Let_def)

text \<open>Evaluating an update on the samples.\<close>

lemma update_handler_fst:
  assumes "isValid i" "findById i w = Some p" "validate L (updated fid b upl p) = []"
    "upl \<noteq> None \<longrightarrow> gridfs_connected w"
  shows "fst (update_handler L fid i b upl w) = Inr (updated fid b upl p)"
proof (cases "upl")
  case None
  with assms show ?thesis
    by (cases "b_imageBase64 b"; cases "imageId p")
      (auto simp: update_handler_def finish_update_def save_def updated_def
        imageId_None_update)
next
  case (Some f)
  with assms show ?thesis
    by (auto simp: update_handler_def Let_def finish_update_def save_def updated_def
        saveToGridFS_def)
qed

lemma update_handler_pair:
  assumes "isValid i" "findById i w = Some p" "validate L (updated fid b upl p) = []"
    "upl \<noteq> None \<longrightarrow> gridfs_connected w"
  shows "update_handler L fid i b upl w =
           (Inr (updated fid b upl p), snd (update_handler L fid i b upl w))"
  using update_handler_fst [OF assms] by (simp add: prod_eq_iff)

lemma id4_facts: "isValid id4" "castObjectId id4 = id4" "id4 \<noteq> id3" "id3 \<noteq> id4"
  by (simp_all add: isValid_def castObjectId_def id4_def id3_def str_def is_hex_def)

lemma findById_world1:
  "findById id1 world1 = Some ((entry id1 ''Alpha'' True 1)\<lparr>imageId := Some id3\<rparr>)"
  "findById id1 (world1\<lparr>gridfs_connected := False\<rparr>)
     = Some ((entry id1 ''Alpha'' True 1)\<lparr>imageId := Some id3\<rparr>)"
  by (simp_all add: findById_def world1_def cast_ids)

lemma world1_simps [simp]:
  "docs world1 = [(entry id1 ''Alpha'' True 1)\<lparr>imageId := Some id3\<rparr>]"
  "gridfs_connected world1" "gridfs_files world1 = [(id3, png)]"
  by (simp_all add: world1_def)

lemma body0_simps [simp]:
  "b_title body0 = None" "b_description body0 = None" "b_url body0 = None"
  "b_category body0 = None" "b_tags body0 = TagsAbsent" "b_featured body0 = JUndefined"
  "b_imageBase64 body0 = None"
  by (simp_all add: body0_def)

lemma trim_Delta [simp]: "trim (str '' Delta '') = str ''Delta''"
  by (simp add: trim_def str_def is_ws_def)

text \<open>Running the list query.\<close>

lemma length_insert_by [simp]: "length (insert_by le x xs) = Suc (length xs)"
  by (induction xs) simp_all

lemma length_sort_by [simp]: "length (sort_by le xs) = length xs"
  by (induction xs) (simp_all add: sort_by_def)

lemma matches_skip_limit [simp]: "matches L (limit l (skip n q)) = matches L q"
  by (simp add: matches_def limit_def skip_def fun_eq_iff)

lemma skip_limit_simps [simp]:
  "q_sort (limit l (skip n q)) = q_sort q"
  "q_skip (limit l (skip n q)) = Some n"
  "q_limit (limit l (skip n q)) = Some l"
  by (simp_all add: limit_def skip_def)

lemma composer_options [simp]:
  "q_skip (findWithFilters f) = None" "q_limit (findWithFilters f) = None"
  "q_skip (api_findWithFilters f) = None" "q_limit (api_findWithFilters f) = None"
  by (simp_all add: findWithFilters_def api_findWithFilters_def sort_q_def conditions_def
      find_query_def)

lemma exec_all:
  "q_skip q = None \<Longrightarrow> q_limit q = None \<Longrightarrow>
   exec L q ds = Inr (sort_by (before (q_sort q)) (filter (matches L q) ds))"
  by (simp add: exec_def apply_limit_def)

lemma ceil_div_eq: "l \<noteq> 0 \<Longrightarrow> ceil_div n l = Fin (- (- n div l))"
  by (simp add: ceil_div_def ceiling_divide_eq_div)

lemma list_with_page:
  assumes "p = (case r_page r of None \<Rightarrow> 1 | Some n \<Rightarrow> n)"
    "l = (case r_limit r of None \<Rightarrow> 10 | Some n \<Rightarrow> n)" "1 \<le> p" "1 \<le> l"
    "q_skip (compose (build_filters r)) = None" "q_limit (compose (build_filters r)) = None"
    "exec L (compose (build_filters r)) ds = Inr all"
  shows "list_with compose L r ds =
    Inr \<lparr>l_data = take (nat l) (drop (nat ((p - 1) * l)) all),
         l_pagination = \<lparr>currentPage = p,
           totalPages = ceil_div (int (length all)) l,
           totalItems = int (length all), itemsPerPage = l,
           hasNext = js_less p (ceil_div (int (length all)) l),
           hasPrev = (1 < p)\<rparr>\<rparr>"
proof -
  let ?q = "compose (build_filters r)"
  have a: "all = sort_by (before (q_sort ?q)) (filter (matches L ?q) ds)"
    using assms(5-7) by (simp add: exec_all)
  have s: "\<not> (p - 1) * l < 0"
    using assms(3,4) by (simp add: not_less)
  have e: "exec L (limit l (skip ((p - 1) * l) ?q)) ds
      = Inr (take (nat l) (drop (nat ((p - 1) * l)) all))"
    using assms(4) s by (simp add: exec_def apply_limit_def a)
  have c: "countDocuments L ?q ds = int (length all)"
    by (simp add: countDocuments_def a)
  show ?thesis
    using e c by (simp add: list_with_def Let_def assms(1,2) [symmetric])
qed

lemma request0_simps [simp]:
  "r_category request0 = None" "r_tags request0 = None" "r_search request0 = None"
  "r_sort request0 = None" "r_page request0 = None" "r_limit request0 = None"
  "r_featured request0 = None"
  by (simp_all add: request0_def)

lemma sort_names_distinct:
  "sort_newest \<noteq> []" "sort_popular \<noteq> []" "sort_name \<noteq> []" "sort_views \<noteq> []"
  "sort_newest \<noteq> sort_popular" "sort_newest \<noteq> sort_name" "sort_newest \<noteq> sort_views"
  "sort_popular \<noteq> sort_name" "sort_popular \<noteq> sort_views" "sort_name \<noteq> sort_views"
  "sort_popular \<noteq> sort_newest" "sort_name \<noteq> sort_newest" "sort_views \<noteq> sort_newest"
  "sort_name \<noteq> sort_popular" "sort_views \<noteq> sort_popular" "sort_views \<noteq> sort_name"
  by (simp_all add: sort_newest_def sort_popular_def sort_name_def sort_views_def)

lemma build_filters_plain:
  "r_category r = None \<Longrightarrow> r_tags r = None \<Longrightarrow> r_search r = None \<Longrightarrow> r_featured r = None \<Longrightarrow>
   build_filters r = \<lparr>f_category = None, f_tags = None, f_search = None,
     f_sort = (case r_sort r of None \<Rightarrow> Some sort_newest | Some m \<Rightarrow> if m = [] then None else Some m),
     f_featured = None\<rparr>"
  by (simp add: build_filters_def Let_def sort_names_distinct split: option.splits)

lemma matches_plain [simp]:
  "matches L (findWithFilters \<lparr>f_category = None, f_tags = None, f_search = None,
      f_sort = s, f_featured = None\<rparr>) p"
  "matches L (api_findWithFilters \<lparr>f_category = None, f_tags = None, f_search = None,
      f_sort = s, f_featured = None\<rparr>) p"
  by (simp_all add: matches_def findWithFilters_def api_findWithFilters_def sort_q_def
      conditions_def find_query_def)

lemma q_sort_composers [simp]:
  "q_sort (findWithFilters f) = sort_keys (f_sort f)"
  "q_sort (api_findWithFilters f) = api_sort_keys (f_sort f)"
  by (simp_all add: findWithFilters_def api_findWithFilters_def sort_q_def)

lemma exec_world0:
  "exec lib0 (findWithFilters (build_filters (request0\<lparr>r_page := Some 2, r_limit := Some 1\<rparr>)))
     (docs world0) = Inr [entry id1 ''Alpha'' True 1, entry id2 ''Beta'' False 2]"
  "exec lib0 (api_findWithFilters (build_filters (request0\<lparr>r_page := Some 2, r_limit := Some 1\<rparr>)))
     (docs world0) = Inr [entry id2 ''Beta'' False 2, entry id1 ''Alpha'' True 1]"
  by (simp_all add: exec_all build_filters_plain sort_keys_def api_sort_keys_def
      sort_names_distinct docs_world0 sort_by_def)

lemma split_on_nonempty: "split_on c s \<noteq> []"
  by (induction s) (auto split: list.splits)

lemma conditions_build:
  "q_category (conditions (build_filters r)) =
     (case r_category r of None \<Rightarrow> None | Some c \<Rightarrow> if c = [] then None else Some c)"
  "q_tags (conditions (build_filters r)) =
     (case r_tags r of None \<Rightarrow> None | Some t \<Rightarrow> if t = [] then None else Some (split_on comma t))"
  "q_text (conditions (build_filters r)) =
     (case r_search r of None \<Rightarrow> None | Some t \<Rightarrow> if t = [] then None else Some t)"
  "q_featured (conditions (build_filters r)) =
     (case r_featured r of None \<Rightarrow> None | Some v \<Rightarrow> Some (v = str ''true''))"
  by (simp_all add: conditions_def build_filters_def find_query_def split_on_nonempty
      split: option.splits)

lemma composer_conditions [simp]:
  "q_category (findWithFilters f) = q_category (conditions f)"
  "q_tags (findWithFilters f) = q_tags (conditions f)"
  "q_text (findWithFilters f) = q_text (conditions f)"
  "q_featured (findWithFilters f) = q_featured (conditions f)"
  by (simp_all add: findWithFilters_def sort_q_def)

lemma build_filters_empty:
  "build_filters (r\<lparr>r_category := Some []\<rparr>) = build_filters (r\<lparr>r_category := None\<rparr>)"
  "build_filters (r\<lparr>r_tags := Some []\<rparr>) = build_filters (r\<lparr>r_tags := None\<rparr>)"
  "build_filters (r\<lparr>r_search := Some []\<rparr>) = build_filters (r\<lparr>r_search := None\<rparr>)"
  by (simp_all add: build_filters_def)

text \<open>The list query on the samples.\<close>

lemma category_Foo: "str ''AI/ML'' \<noteq> str ''Foo''"
  by (simp add: str_simps)

lemma exec_Foo:
  "exec lib0 (findWithFilters (build_filters
       (request0\<lparr>r_category := Some (str ''Foo''), r_page := Some 1, r_limit := Some 10\<rparr>)))
     (docs world0) = Inr []"
  by (simp add: exec_all matches_def conditions_build docs_world0 category_Foo sort_by_def)

lemma exec_plain:
  "exec lib0 (findWithFilters (build_filters (request0\<lparr>r_page := Some 1, r_limit := Some 10\<rparr>)))
     (docs world0) = Inr [entry id1 ''Alpha'' True 1, entry id2 ''Beta'' False 2]"
  by (simp add: exec_all build_filters_plain sort_keys_def sort_names_distinct docs_world0
      sort_by_def)

lemma exec_yes:
  "exec lib0 (findWithFilters (build_filters
       (request0\<lparr>r_featured := Some (str ''yes''), r_page := Some 1, r_limit := Some 10\<rparr>)))
     (docs world0) = Inr [entry id2 ''Beta'' False 2]"
  by (simp add: exec_all matches_def conditions_build docs_world0 str_simps sort_by_def)

text \<open>An instance of the amended claim.\<close>

lemma split_ab: "split_on comma (str ''a,b'') = [str ''a'', str ''b'']"
  by (simp add: comma_def str_simps)

text \<open>The comparison of the store is a total preorder, so the sort sorts.\<close>

lemma field_lt_irrefl [simp]: "\<not> field_lt f a a"
  by (cases f) simp_all

lemma field_lt_trans: "field_lt f a b \<Longrightarrow> field_lt f b c \<Longrightarrow> field_lt f a c"
  by (cases f) auto

lemma field_lt_asym: "field_lt f a b \<Longrightarrow> \<not> field_lt f b a"
  by (cases f) auto

lemma field_lt_cases: "field_lt f a c \<Longrightarrow> field_lt f a b \<or> field_lt f b c"
  by (cases f) auto

lemma before_total: "before ks a b \<or> before ks b a"
proof (induction ks)
  case Nil
  then show ?case by simp
next
  case (Cons k ks)
  obtain f d where k: "k = (f, d)"
    by (cases k)
  show ?case
    using Cons field_lt_asym [of f a b] by (cases d) (auto simp: k)
qed

lemma before_trans: "before ks a b \<Longrightarrow> before ks b c \<Longrightarrow> before ks a c"
proof (induction ks)
  case Nil
  then show ?case by simp
next
  case (Cons k ks)
  obtain f d where k: "k = (f, d)"
    by (cases k)
  show ?case
  proof (cases d)
    case Asc
    with Cons k show ?thesis
      using field_lt_trans [of f a b c] field_lt_trans [of f c b a]
        field_lt_cases [of f a c b] field_lt_cases [of f c a b]
        field_lt_cases [of f a b c] field_lt_cases [of f b c a]
        field_lt_cases [of f c b a] field_lt_cases [of f b a c]
        field_lt_asym [of f a b] field_lt_asym [of f b c] field_lt_asym [of f a c]
      by (auto split: if_splits)
  next
    case Desc
    with Cons k show ?thesis
      using field_lt_trans [of f a b c] field_lt_trans [of f c b a]
        field_lt_cases [of f a c b] field_lt_cases [of f c a b]
        field_lt_cases [of f a b c] field_lt_cases [of f b c a]
        field_lt_cases [of f c b a] field_lt_cases [of f b a c]
        field_lt_asym [of f a b] field_lt_asym [of f b c] field_lt_asym [of f a c]
      by (auto split: if_splits)
  qed
qed

lemma set_insert_by [simp]: "set (insert_by le x xs) = insert x (set xs)"
  by (induction xs) auto

lemma sorted_insert_by:
  assumes total: "\<And>a b. le a b \<or> le b a" and trans: "\<And>a b c. le a b \<Longrightarrow> le b c \<Longrightarrow> le a c"
  shows "sorted_wrt le xs \<Longrightarrow> sorted_wrt le (insert_by le x xs)"
proof (induction xs)
  case Nil
  then show ?case by simp
next
  case (Cons y ys)
  show ?case
  proof (cases "le x y")
    case True
    with Cons.prems trans show ?thesis
      by auto
  next
    case False
    with total have "le y x"
      by blast
    with Cons False show ?thesis
      by auto
  qed
qed

lemma sorted_sort_by:
  assumes "\<And>a b. le a b \<or> le b a" and "\<And>a b c. le a b \<Longrightarrow> le b c \<Longrightarrow> le a c"
  shows "sorted_wrt le (sort_by le xs)"
  by (induction xs) (simp_all add: sort_by_def sorted_insert_by [OF assms])

lemma set_sort_by [simp]: "set (sort_by le xs) = set xs"
  by (induction xs) (simp_all add: sort_by_def)

lemma sorted_before: "sorted_wrt (before ks) (sort_by (before ks) xs)"
proof (rule sorted_sort_by)
  show "before ks a b \<or> before ks b a" for a b
    by (rule before_total)
  show "before ks a b \<Longrightarrow> before ks b c \<Longrightarrow> before ks a c" for a b c
    by (rule before_trans)
qed

lemma sorted_wrt_take_drop:
  "sorted_wrt P xs \<Longrightarrow> sorted_wrt P (take n (drop m xs))"
  by (simp add: sorted_wrt_drop sorted_wrt_take)

lemma sorted_apply_limit: "sorted_wrt P xs \<Longrightarrow> sorted_wrt P (apply_limit l xs)"
  by (simp add: apply_limit_def sorted_wrt_take split: option.splits)

lemma exec_sorted: "exec L q ds = Inr xs \<Longrightarrow> sorted_wrt (before (q_sort q)) xs"
  by (auto simp: exec_def Let_def sorted_before sorted_apply_limit sorted_wrt_drop
      split: option.splits if_splits)

lemma sort_keys_featured:
  "\<exists>ks. sort_keys m = (SFeatured, Desc) # ks
     \<and> (\<forall>a b. before ks a b = secondary m a b)"
proof (cases m)
  case None
  then show ?thesis
    by (auto simp: sort_keys_def secondary_def)
next
  case (Some s)
  then show ?thesis
    by (auto simp: sort_keys_def secondary_def sort_names_distinct)
qed

lemma before_featured:
  assumes "before ((SFeatured, Desc) # ks) a b"
  shows "(featured b \<longrightarrow> featured a) \<and> (featured a = featured b \<longrightarrow> before ks a b)"
  using assms by (auto split: if_splits)

lemma list_with_data:
  assumes "list_with compose L r ds = Inr rep"
  shows "\<exists>l n. exec L (limit l (skip n (compose (build_filters r)))) ds = Inr (l_data rep)"
proof -
  let ?l = "case r_limit r of None \<Rightarrow> 10 | Some n \<Rightarrow> n"
  let ?n = "((case r_page r of None \<Rightarrow> 1 | Some n \<Rightarrow> n) - 1) * ?l"
  have "exec L (limit ?l (skip ?n (compose (build_filters r)))) ds = Inr (l_data rep)"
    using assms by (cases "exec L (limit ?l (skip ?n (compose (build_filters r)))) ds")
      (auto simp: list_with_def Let_def)
  then show ?thesis
    by blast
qed

lemma exec_newest:
  "exec lib0 (findWithFilters (build_filters (request0\<lparr>r_sort := Some sort_newest\<rparr>)))
     (docs world0) = Inr [entry id1 ''Alpha'' True 1, entry id2 ''Beta'' False 2]"
  "exec lib0 (api_findWithFilters (build_filters (request0\<lparr>r_sort := Some sort_newest\<rparr>)))
     (docs world0) = Inr [entry id2 ''Beta'' False 2, entry id1 ''Alpha'' True 1]"
  by (simp_all add: exec_all build_filters_plain sort_keys_def api_sort_keys_def
      sort_names_distinct docs_world0 sort_by_def)

lemma list_newest:
  "list_with api_findWithFilters lib0 (request0\<lparr>r_sort := Some sort_newest\<rparr>) (docs world0)
      = Inr \<lparr>l_data = [entry id2 ''Beta'' False 2, entry id1 ''Alpha'' True 1],
        l_pagination = \<lparr>currentPage = 1, totalPages = Fin 1, totalItems = 2, itemsPerPage = 10,
          hasNext = False, hasPrev = False\<rparr>\<rparr>"
  "list_with findWithFilters lib0 (request0\<lparr>r_sort := Some sort_newest\<rparr>) (docs world0)
      = Inr \<lparr>l_data = [entry id1 ''Alpha'' True 1, entry id2 ''Beta'' False 2],
        l_pagination = \<lparr>currentPage = 1, totalPages = Fin 1, totalItems = 2, itemsPerPage = 10,
          hasNext = False, hasPrev = False\<rparr>\<rparr>"
  using list_with_page [of 1 "request0\<lparr>r_sort := Some sort_newest\<rparr>" 10 api_findWithFilters
      lib0 "docs world0" "[entry id2 ''Beta'' False 2, entry id1 ''Alpha'' True 1]"]
    list_with_page [of 1 "request0\<lparr>r_sort := Some sort_newest\<rparr>" 10 findWithFilters
      lib0 "docs world0" "[entry id1 ''Alpha'' True 1, entry id2 ''Beta'' False 2]"]
  by (simp_all add: exec_newest ceil_div_eq)

subsection \<open>Keys of the body the update handler does not read\<close>

lemma assign_body_other [simp]: "assign_body (b\<lparr>b_other := x\<rparr>) p = assign_body b p"
  by (simp add: assign_body_def)

lemma update_handler_other:
  "update_handler L fileId i (b\<lparr>b_other := x\<rparr>) upl w = update_handler L fileId i b upl w"
  by (simp add: update_handler_def Let_def
      cong: option.case_cong sum.case_cong prod.case_cong if_cong)

subsection \<open>The bucket after an upload\<close>

lemma finish_update_gridfs:
  "gridfs_files (snd (finish_update L p w)) = gridfs_files w"
  by (cases "save L p w") (auto simp: finish_update_def dest: save_gridfs)

lemma update_handler_file_bucket:
  assumes "isValid i" "findById i w = Some p" "gridfs_connected w"
  shows "gridfs_files (snd (update_handler L fileId i b (Some g) w)) =
           filter (\<lambda>(k, u). Some k \<noteq> imageId p) (gridfs_files w) @ [(fileId, g)]"
  using assms
  by (simp add: update_handler_def Let_def saveToGridFS_def finish_update_gridfs tryDelete_files)

subsection \<open>The like handler\<close>

lemma save_likes:
  assumes "save L p w = Inr w'" "0 \<le> likes p" "\<forall>q\<in>set (docs w). 0 \<le> likes q"
  shows "\<forall>q\<in>set (docs w'). 0 \<le> likes q"
  using assms by (auto simp: save_Inr)

lemma like_handler_likes:
  assumes "\<forall>q\<in>set (docs w). 0 \<le> likes q"
  shows "\<forall>q\<in>set (docs (snd (like_handler L i v w))). 0 \<le> likes q"
proof (cases "isValid i")
  case False
  with assms show ?thesis by (simp add: like_handler_def)
next
  case True
  show ?thesis
  proof (cases "findById i w")
    case None
    with assms True show ?thesis by (simp add: like_handler_def)
  next
    case (Some p)
    let ?p = "toggleLike (if v = JUndefined then JBool True else v) p"
    show ?thesis
    proof (cases "save L ?p w")
      case (Inl es)
      with assms True Some show ?thesis by (simp add: like_handler_def Let_def)
    next
      case (Inr w')
      then have "\<forall>q\<in>set (docs w'). 0 \<le> likes q"
        using assms by (rule save_likes [OF _ toggleLike_nonneg])
      with True Some Inr show ?thesis by (simp add: like_handler_def Let_def)
    qed
  qed
qed

lemma like_requests_likes:
  "\<forall>q\<in>set (docs w). 0 \<le> likes q \<Longrightarrow>
   \<forall>q\<in>set (docs (fold (\<lambda>v s. snd (like_handler L i v s)) vs w)). 0 \<le> likes q"
proof (induction vs arbitrary: w)
  case Nil
  then show ?case by simp
next
  case (Cons v vs)
  from like_handler_likes [OF Cons.prems]
  have "\<forall>q\<in>set (docs (snd (like_handler L i v w))). 0 \<le> likes q" .
  from Cons.IH [OF this] show ?case by simp
qed

lemma like_handler_reply:
  assumes "like_handler L i v w = (Inr k, w')"
  shows "\<exists>p. findById i w = Some p \<and> k = likes (toggleLike v p) \<and> findById i w' = Some (toggleLike v p)"
proof -
  from assms have v: "isValid i"
    by (auto simp: like_handler_def Let_def split: if_splits)
  from assms v obtain p where p: "findById i w = Some p"
    by (auto simp: like_handler_def Let_def split: option.splits)
  have t: "toggleLike (if v = JUndefined then JBool True else v) p = toggleLike v p"
    by (simp add: toggleLike_def)
  from assms v p have s: "save L (toggleLike v p) w = Inr w'" and k: "k = likes (toggleLike v p)"
    by (auto simp: like_handler_def Let_def t split: sum.splits)
  have "pid (toggleLike v p) = pid p"
    by (simp add: toggleLike_def Let_def)
  from findById_save [OF p this s] p k show ?thesis
    by blast
qed

lemma toggleLike_simps [simp]:
  "pid (toggleLike v p) = pid p" "title (toggleLike v p) = title p"
  "description (toggleLike v p) = description p" "url (toggleLike v p) = url p"
  "category (toggleLike v p) = category p" "tags (toggleLike v p) = tags p"
  by (simp_all add: toggleLike_def Let_def)

lemma like_handler_ok:
  assumes "isValid i" "findById i w = Some p" "validate L p = []"
  shows "like_handler L i v w = (Inr (likes (toggleLike v p)),
           w\<lparr>docs := map (\<lambda>q. if pid q = pid p then toggleLike v p else q) (docs w)\<rparr>)"
proof -
  have t: "toggleLike (if v = JUndefined then JBool True else v) p = toggleLike v p"
    by (simp add: toggleLike_def)
  have "validate L (toggleLike v p) = []"
    using assms(3) by (simp add: validate_def)
  then show ?thesis
    using assms(1,2) by (simp add: like_handler_def Let_def t save_def)
qed

subsection \<open>The sort of models/Portfolio.js\<close>

text \<open>
  The composer of models/Portfolio.js puts the featured entries first in every sort mode:
  in a reply of the list handler no entry that is not featured stands before a featured
  one, and two entries with the same flag stand in the secondary order of the mode.
\<close>

theorem findWithFilters_featured_first:
  "list_handler L r w = (Inr rep, w') \<and> i < j \<and> j < length (l_data rep) \<longrightarrow>
     (featured (l_data rep ! j) \<longrightarrow> featured (l_data rep ! i))
     \<and> (featured (l_data rep ! i) = featured (l_data rep ! j) \<longrightarrow>
          secondary (f_sort (build_filters r)) (l_data rep ! i) (l_data rep ! j))"
proof
  let ?xs = "l_data rep"
  let ?m = "f_sort (build_filters r)"
  assume h: "list_handler L r w = (Inr rep, w') \<and> i < j \<and> j < length ?xs"
  then have "list_with findWithFilters L r (docs w) = Inr rep"
    by (auto simp: list_handler_def)
  from list_with_data [OF this] obtain l n
    where e: "exec L (limit l (skip n (findWithFilters (build_filters r)))) (docs w) = Inr ?xs"
    by blast
  obtain ks where ks: "sort_keys ?m = (SFeatured, Desc) # ks"
    and sec: "\<And>a b. before ks a b = secondary ?m a b"
    using sort_keys_featured [of ?m] by blast
  have "sorted_wrt (before ((SFeatured, Desc) # ks)) ?xs"
    using exec_sorted [OF e] by (simp add: ks)
  then have "before ((SFeatured, Desc) # ks) (?xs ! i) (?xs ! j)"
    using h sorted_wrt_iff_nth_less [of "before ((SFeatured, Desc) # ks)" ?xs] by blast
  from before_featured [OF this] show "(featured (?xs ! j) \<longrightarrow> featured (?xs ! i))
     \<and> (featured (?xs ! i) = featured (?xs ! j) \<longrightarrow> secondary ?m (?xs ! i) (?xs ! j))"
    by (simp add: sec)
qed

theorem findWithFilters_featured_first_witness:
  "list_handler lib0 (request0\<lparr>r_sort := Some sort_newest\<rparr>) world0 =
     (Inr \<lparr>l_data = [entry id1 ''Alpha'' True 1, entry id2 ''Beta'' False 2],
        l_pagination = \<lparr>currentPage = 1, totalPages = Fin 1, totalItems = 2, itemsPerPage = 10,
          hasNext = False, hasPrev = False\<rparr>\<rparr>, world0)
   \<and> (0::nat) < 1 \<and> (1::nat) < length [entry id1 ''Alpha'' True 1, entry id2 ''Beta'' False 2]
   \<and> featured ([entry id1 ''Alpha'' True 1, entry id2 ''Beta'' False 2] ! 0)
   \<and> \<not> featured ([entry id1 ''Alpha'' True 1, entry id2 ''Beta'' False 2] ! 1)"
  using findWithFilters_featured_first [of lib0 "request0\<lparr>r_sort := Some sort_newest\<rparr>" world0
      "\<lparr>l_data = [entry id1 ''Alpha'' True 1, entry id2 ''Beta'' False 2],
        l_pagination = \<lparr>currentPage = 1, totalPages = Fin 1, totalItems = 2, itemsPerPage = 10,
          hasNext = False, hasPrev = False\<rparr>\<rparr>" world0 0 1]
  by (simp add: list_handler_def list_newest)

section \<open>The claims\<close>

subsection \<open>C1\<close>

text \<open>
  C1. The composer of the serverless function api/portfolio/index.js does not: sorted
  newest first, it lists a newer entry that is not featured before an older featured one,
  where the list handler of routes/portfolio.js answers the same request with the featured
  entry first.
\<close>

theorem api_newest_featured_last:
  "api_list_handler lib0 [] (request0\<lparr>r_sort := Some sort_newest\<rparr>) world0 =
     (Inr \<lparr>l_data = [entry id2 ''Beta'' False 2, entry id1 ''Alpha'' True 1],
        l_pagination = \<lparr>currentPage = 1, totalPages = Fin 1, totalItems = 2, itemsPerPage = 10,
          hasNext = False, hasPrev = False\<rparr>\<rparr>, world0)
   \<and> \<not> featured (entry id2 ''Beta'' False 2) \<and> featured (entry id1 ''Alpha'' True 1)
   \<and> list_handler lib0 (request0\<lparr>r_sort := Some sort_newest\<rparr>) world0 =
     (Inr \<lparr>l_data = [entry id1 ''Alpha'' True 1, entry id2 ''Beta'' False 2],
        l_pagination = \<lparr>currentPage = 1, totalPages = Fin 1, totalItems = 2, itemsPerPage = 10,
          hasNext = False, hasPrev = False\<rparr>\<rparr>, world0)"
proof -
  have i: "initializeDefaultData [] world0 = world0"
    by (simp add: initializeDefaultData_def docs_world0)
  show ?thesis
    by (simp add: api_list_handler_def list_handler_def i list_newest)
qed

subsection \<open>C2\<close>

text \<open>
  C2 (as amended). The image reference of an entry: the inline base64 string when it is
  not empty; else, when a blob reference is set, the URL \<open>/api/portfolio/image/<id>\<close>;
  else the legacy image field when it is not empty; else the empty string.
\<close>

theorem imageUrl_precedence:
  "(imageBase64 p \<noteq> [] \<longrightarrow> imageUrl p = imageBase64 p)
   \<and> (imageBase64 p = [] \<and> imageId p = Some i \<longrightarrow>
        imageUrl p = str ''/api/portfolio/image/'' @ i)
   \<and> (imageBase64 p = [] \<and> imageId p = None \<and> image_field p \<noteq> [] \<longrightarrow>
        imageUrl p = image_field p)
   \<and> (imageBase64 p = [] \<and> imageId p = None \<and> image_field p = [] \<longrightarrow> imageUrl p = [])"
  by (simp add: imageUrl_def)

theorem imageUrl_precedence_witness:
  "imageUrl ((blank id1)\<lparr>imageBase64 := str ''data:image/png;base64,AAAA'', imageId := Some id2,
       image_field := str ''a.png''\<rparr>) = str ''data:image/png;base64,AAAA''
   \<and> imageUrl ((blank id1)\<lparr>imageId := Some id2, image_field := str ''a.png''\<rparr>)
       = str ''/api/portfolio/image/64b7f0a1c2d3e4f5a6b7c8d2''
   \<and> imageUrl ((blank id1)\<lparr>image_field := str ''a.png''\<rparr>) = str ''a.png''
   \<and> imageUrl (blank id1) = []"
  using imageUrl_precedence [of "(blank id1)\<lparr>imageBase64 := str ''data:image/png;base64,AAAA'',
      imageId := Some id2, image_field := str ''a.png''\<rparr>" id2]
    imageUrl_precedence [of "(blank id1)\<lparr>imageId := Some id2, image_field := str ''a.png''\<rparr>" id2]
    imageUrl_precedence [of "(blank id1)\<lparr>image_field := str ''a.png''\<rparr>" id2]
    imageUrl_precedence [of "blank id1" id2]
  by (simp add: blank_def id2_def str_def)

text \<open>The URL of a blob reference is not \<open>/portfolio/image/<id>\<close>: it starts with \<open>/api\<close>.\<close>

theorem imageUrl_blob_counterexample:
  "imageUrl ((blank id1)\<lparr>imageId := Some id2\<rparr>) \<noteq> str ''/portfolio/image/'' @ id2"
  by (simp add: imageUrl_def blank_def str_def)

subsection \<open>C3\<close>

text \<open>
  C3. For a list request with page \<open>p \<ge> 1\<close> and limit \<open>l \<ge> 1\<close>, where \<open>all\<close> is the
  whole sorted result of the composed query: the reply holds the \<open>l\<close> entries after the
  first \<open>(p - 1) * l\<close> of \<open>all\<close>, and reports \<open>currentPage = p\<close>,
  \<open>totalPages = ceil(totalItems / l)\<close>, \<open>totalItems = length all\<close>, \<open>itemsPerPage = l\<close>,
  \<open>hasNext\<close> iff \<open>p < totalPages\<close> and \<open>hasPrev\<close> iff \<open>p > 1\<close>. The same holds of the
  serverless list handler.
\<close>

theorem pagination:
  "(1 \<le> p \<and> 1 \<le> l \<and> r_page r = Some p \<and> r_limit r = Some l
      \<and> exec L (findWithFilters (build_filters r)) (docs w) = Inr all \<longrightarrow>
    list_handler L r w =
      (Inr \<lparr>l_data = take (nat l) (drop (nat ((p - 1) * l)) all),
         l_pagination = \<lparr>currentPage = p,
           totalPages = Fin \<lceil>real_of_int (int (length all)) / real_of_int l\<rceil>,
           totalItems = int (length all), itemsPerPage = l,
           hasNext = (p < \<lceil>real_of_int (int (length all)) / real_of_int l\<rceil>),
           hasPrev = (1 < p)\<rparr>\<rparr>, w))
   \<and> (1 \<le> p \<and> 1 \<le> l \<and> r_page r = Some p \<and> r_limit r = Some l
      \<and> exec L (api_findWithFilters (build_filters r)) (docs (initializeDefaultData seeds w))
          = Inr all' \<longrightarrow>
    api_list_handler L seeds r w =
      (Inr \<lparr>l_data = take (nat l) (drop (nat ((p - 1) * l)) all'),
         l_pagination = \<lparr>currentPage = p,
           totalPages = Fin \<lceil>real_of_int (int (length all')) / real_of_int l\<rceil>,
           totalItems = int (length all'), itemsPerPage = l,
           hasNext = (p < \<lceil>real_of_int (int (length all')) / real_of_int l\<rceil>),
           hasPrev = (1 < p)\<rparr>\<rparr>, initializeDefaultData seeds w))"
  using list_with_page [of p r l findWithFilters L "docs w" all]
    list_with_page [of p r l api_findWithFilters L "docs (initializeDefaultData seeds w)" all']
  by (simp add: list_handler_def api_list_handler_def Let_def ceil_div_def)

theorem pagination_witness:
  "(1::int) \<le> 2 \<and> (1::int) \<le> 1
   \<and> r_page (request0\<lparr>r_page := Some 2, r_limit := Some 1\<rparr>) = Some 2
   \<and> r_limit (request0\<lparr>r_page := Some 2, r_limit := Some 1\<rparr>) = Some 1
   \<and> exec lib0 (findWithFilters (build_filters (request0\<lparr>r_page := Some 2, r_limit := Some 1\<rparr>)))
       (docs world0) = Inr [entry id1 ''Alpha'' True 1, entry id2 ''Beta'' False 2]
   \<and> list_handler lib0 (request0\<lparr>r_page := Some 2, r_limit := Some 1\<rparr>) world0 =
      (Inr \<lparr>l_data = [entry id2 ''Beta'' False 2],
         l_pagination = \<lparr>currentPage = 2, totalPages = Fin 2, totalItems = 2, itemsPerPage = 1,
           hasNext = False, hasPrev = True\<rparr>\<rparr>, world0)
   \<and> exec lib0 (api_findWithFilters (build_filters (request0\<lparr>r_page := Some 2, r_limit := Some 1\<rparr>)))
       (docs (initializeDefaultData [] world0))
       = Inr [entry id2 ''Beta'' False 2, entry id1 ''Alpha'' True 1]
   \<and> api_list_handler lib0 [] (request0\<lparr>r_page := Some 2, r_limit := Some 1\<rparr>) world0 =
      (Inr \<lparr>l_data = [entry id1 ''Alpha'' True 1],
         l_pagination = \<lparr>currentPage = 2, totalPages = Fin 2, totalItems = 2, itemsPerPage = 1,
           hasNext = False, hasPrev = True\<rparr>\<rparr>, world0)"
proof -
  have i: "initializeDefaultData [] world0 = world0"
    by (simp add: initializeDefaultData_def docs_world0)
  show ?thesis
    using pagination [of 2 1 "request0\<lparr>r_page := Some 2, r_limit := Some 1\<rparr>" lib0 world0
        "[entry id1 ''Alpha'' True 1, entry id2 ''Beta'' False 2]" "[]"
        "[entry id2 ''Beta'' False 2, entry id1 ''Alpha'' True 1]"]
    by (simp add: exec_world0 i)
qed

subsection \<open>C4\<close>

text \<open>
  C4. Starting from \<open>likes = 0\<close>, after every prefix of every sequence of like toggles
  the counter is not negative; a decrement at 0 leaves it at 0, and every other toggle of a
  non-negative counter moves it by exactly 1 up or down. The same through the handler:
  after every prefix of every sequence of like requests no stored counter is negative, and
  a request that succeeds replies with, and stores, the toggled count.
\<close>

theorem likes_never_negative:
  "(likes p = 0 \<longrightarrow> 0 \<le> likes (fold toggleLike (take n (map JBool bs)) p))
   \<and> (likes p = 0 \<longrightarrow> likes (toggleLike (JBool False) p) = 0)
   \<and> (0 \<le> likes p \<longrightarrow> likes (toggleLike (JBool True) p) = likes p + 1)
   \<and> (0 < likes p \<longrightarrow> likes (toggleLike (JBool False) p) = likes p - 1)
   \<and> ((\<forall>q\<in>set (docs w). 0 \<le> likes q) \<longrightarrow>
        (\<forall>q\<in>set (docs (fold (\<lambda>v s. snd (like_handler L i v s)) (take n (map JBool bs)) w)).
           0 \<le> likes q))
   \<and> (like_handler L i (JBool b) w = (Inr k, w') \<and> findById i w = Some p \<longrightarrow>
        k = likes (toggleLike (JBool b) p) \<and> 0 \<le> k
        \<and> map_option likes (findById i w') = Some k)"
proof -
  have A: "k = likes (toggleLike (JBool b) p) \<and> 0 \<le> k
        \<and> map_option likes (findById i w') = Some k"
    if "like_handler L i (JBool b) w = (Inr k, w') \<and> findById i w = Some p"
    using that like_handler_reply [of L i "JBool b" w k w'] toggleLike_nonneg [of "JBool b" p]
    by auto
  have B: "\<forall>q\<in>set (docs (fold (\<lambda>v s. snd (like_handler L i v s)) (take n (map JBool bs)) w)).
           0 \<le> likes q"
    if "\<forall>q\<in>set (docs w). 0 \<le> likes q"
    using that by (rule like_requests_likes)
  have C: "(likes p = 0 \<longrightarrow> 0 \<le> likes (fold toggleLike (take n (map JBool bs)) p))
   \<and> (likes p = 0 \<longrightarrow> likes (toggleLike (JBool False) p) = 0)
   \<and> (0 \<le> likes p \<longrightarrow> likes (toggleLike (JBool True) p) = likes p + 1)
   \<and> (0 < likes p \<longrightarrow> likes (toggleLike (JBool False) p) = likes p - 1)"
    by (simp add: fold_toggleLike_nonneg toggleLike_def Let_def)
  from A B C show ?thesis
    by blast
qed

theorem likes_never_negative_witness:
  "likes (blank id1) = 0
   \<and> 0 \<le> likes (fold toggleLike (take 3 (map JBool [False, True, False, False])) (blank id1))
   \<and> likes (fold toggleLike (take 3 (map JBool [False, True, False, False])) (blank id1)) = 0
   \<and> likes (toggleLike (JBool False) (blank id1)) = 0
   \<and> likes (toggleLike (JBool True) (blank id1)) = 1
   \<and> 0 < likes ((blank id1)\<lparr>likes := 2\<rparr>)
   \<and> likes (toggleLike (JBool False) ((blank id1)\<lparr>likes := 2\<rparr>)) = 1
   \<and> map likes (docs world0) = [0, 0]
   \<and> map likes (docs (fold (\<lambda>v s. snd (like_handler lib0 id1 v s))
         (take 1 (map JBool [False, True])) world0)) = [0, 0]
   \<and> findById id1 world0 = Some (entry id1 ''Alpha'' True 1)
   \<and> fst (like_handler lib0 id1 (JBool False) world0) = Inr 0
   \<and> fst (like_handler lib0 id1 (JBool True) world0) = Inr 1
   \<and> map_option likes (findById id1 (snd (like_handler lib0 id1 (JBool True) world0))) = Some 1"
proof -
  have h: "\<forall>q\<in>set (docs world0). 0 \<le> likes q"
    by (simp add: docs_world0)
  have l: "like_handler lib0 id1 v world0 = (Inr (likes (toggleLike v (entry id1 ''Alpha'' True 1))),
      world0\<lparr>docs := [toggleLike v (entry id1 ''Alpha'' True 1), entry id2 ''Beta'' False 2]\<rparr>)" for v
    using like_handler_ok [of id1 world0 "entry id1 ''Alpha'' True 1" lib0 v]
    by (simp add: isValid_ids findById_world0 validate_entry docs_world0 ids_distinct)
  have t: "likes (toggleLike (JBool False) (entry id1 ''Alpha'' True 1)) = 0"
    "likes (toggleLike (JBool True) (entry id1 ''Alpha'' True 1)) = 1"
    by (simp_all add: toggleLike_def)
  from likes_never_negative [of "blank id1" 3 "[False, True, False, False]" world0 lib0 id1 True
      "likes (toggleLike (JBool True) (entry id1 ''Alpha'' True 1))"
      "snd (like_handler lib0 id1 (JBool True) world0)"]
    likes_never_negative [of "(blank id1)\<lparr>likes := 2\<rparr>" 1 "[False, True]" world0 lib0 id1 True
      "likes (toggleLike (JBool True) (entry id1 ''Alpha'' True 1))"
      "snd (like_handler lib0 id1 (JBool True) world0)"]
    likes_never_negative [of "entry id1 ''Alpha'' True 1" 1 "[False, True]" world0 lib0 id1 True
      "likes (toggleLike (JBool True) (entry id1 ''Alpha'' True 1))"
      "snd (like_handler lib0 id1 (JBool True) world0)"]
    h
  show ?thesis
    by (simp add: blank_def toggleLike_def l t docs_world0 findById_world0)
qed

subsection \<open>C5\<close>

text \<open>
  C5. After a successful update of an existing entry, the entry stored is the one replied,
  and: with a binary upload, \<open>imageId\<close> is the new reference, \<open>imageBase64\<close> is empty,
  and the bucket holds what it held minus the old reference's blob plus the new blob; with
  a non-empty inline payload and no upload, \<open>imageBase64\<close> is the payload, \<open>imageId\<close> is
  cleared, and the old reference's blob is gone whenever the bucket can be reached (when
  it cannot, the failed deletion stops nothing). Either way at most one of the two is set.
  With an upload and a reachable bucket the old blob is deleted and the new one stored
  whether or not the entry is saved afterwards.
\<close>

theorem update_image_paths:
  "(update_handler L fileId i b upl w = (Inr p', w') \<and> findById i w = Some p \<longrightarrow>
     findById i w' = Some p'
     \<and> (\<forall>f. upl = Some f \<longrightarrow>
        imageId p' = Some fileId \<and> imageBase64 p' = []
        \<and> gridfs_files w' =
            filter (\<lambda>(k, u). Some k \<noteq> imageId p) (gridfs_files w) @ [(fileId, f)])
     \<and> (\<forall>s. upl = None \<and> b_imageBase64 b = Some s \<and> s \<noteq> [] \<longrightarrow>
        imageBase64 p' = s \<and> imageId p' = None
        \<and> gridfs_files w' =
            (if gridfs_connected w
             then filter (\<lambda>(k, u). Some k \<noteq> imageId p) (gridfs_files w)
             else gridfs_files w))
     \<and> ((upl \<noteq> None \<or> (\<exists>s. b_imageBase64 b = Some s \<and> s \<noteq> [])) \<longrightarrow>
        imageId p' = None \<or> imageBase64 p' = []))
   \<and> (isValid i \<and> findById i w = Some p \<and> gridfs_connected w \<longrightarrow>
        gridfs_files (snd (update_handler L fileId i b (Some g) w)) =
          filter (\<lambda>(k, u). Some k \<noteq> imageId p) (gridfs_files w) @ [(fileId, g)])"
proof -
  have A: "findById i w' = Some p'
     \<and> (\<forall>f. upl = Some f \<longrightarrow>
        imageId p' = Some fileId \<and> imageBase64 p' = []
        \<and> gridfs_files w' =
            filter (\<lambda>(k, u). Some k \<noteq> imageId p) (gridfs_files w) @ [(fileId, f)])
     \<and> (\<forall>s. upl = None \<and> b_imageBase64 b = Some s \<and> s \<noteq> [] \<longrightarrow>
        imageBase64 p' = s \<and> imageId p' = None
        \<and> gridfs_files w' =
            (if gridfs_connected w
             then filter (\<lambda>(k, u). Some k \<noteq> imageId p) (gridfs_files w)
             else gridfs_files w))
     \<and> ((upl \<noteq> None \<or> (\<exists>s. b_imageBase64 b = Some s \<and> s \<noteq> [])) \<longrightarrow>
        imageId p' = None \<or> imageBase64 p' = [])"
    if h: "update_handler L fileId i b upl w = (Inr p', w') \<and> findById i w = Some p"
  proof -
    from h have u: "update_handler L fileId i b upl w = (Inr p', w')"
      and f: "findById i w = Some p"
      by simp_all
    have p': "p' = updated fileId b upl p"
      using update_handler_Inr [OF u f] by simp
    note g = update_handler_gridfs [OF u f]
    have 1: "imageId p' = Some fileId \<and> imageBase64 p' = []
          \<and> gridfs_files w' =
              filter (\<lambda>(k, u). Some k \<noteq> imageId p) (gridfs_files w) @ [(fileId, f)]"
      if "upl = Some f" for f
      using that g by (simp add: p' updated_image tryDelete_files)
    have 2: "imageBase64 p' = s \<and> imageId p' = None
          \<and> gridfs_files w' =
              (if gridfs_connected w
               then filter (\<lambda>(k, u). Some k \<noteq> imageId p) (gridfs_files w)
               else gridfs_files w)"
      if "upl = None \<and> b_imageBase64 b = Some s \<and> s \<noteq> []" for s
      using that g by (simp add: p' updated_image tryDelete_files)
    have 3: "imageId p' = None \<or> imageBase64 p' = []"
      if "upl \<noteq> None \<or> (\<exists>s. b_imageBase64 b = Some s \<and> s \<noteq> [])"
      using that by (auto simp: p' updated_image split: option.splits)
    from 1 2 3 findById_update [OF u] show ?thesis
      by blast
  qed
  have B: "gridfs_files (snd (update_handler L fileId i b (Some g) w)) =
          filter (\<lambda>(k, u). Some k \<noteq> imageId p) (gridfs_files w) @ [(fileId, g)]"
    if "isValid i \<and> findById i w = Some p \<and> gridfs_connected w"
    using that by (simp add: update_handler_file_bucket)
  from A B show ?thesis
    by blast
qed


theorem update_image_paths_witness:
  "update_handler lib0 id4 id1 body0 (Some png) world1
     = (Inr (updated id4 body0 (Some png) ((entry id1 ''Alpha'' True 1)\<lparr>imageId := Some id3\<rparr>)),
        snd (update_handler lib0 id4 id1 body0 (Some png) world1))
   \<and> findById id1 world1 = Some ((entry id1 ''Alpha'' True 1)\<lparr>imageId := Some id3\<rparr>)
   \<and> isValid id1 \<and> gridfs_connected world1
   \<and> imageId (updated id4 body0 (Some png) ((entry id1 ''Alpha'' True 1)\<lparr>imageId := Some id3\<rparr>))
       = Some id4
   \<and> imageBase64 (updated id4 body0 (Some png) ((entry id1 ''Alpha'' True 1)\<lparr>imageId := Some id3\<rparr>))
       = []
   \<and> gridfs_files (snd (update_handler lib0 id4 id1 body0 (Some png) world1)) = [(id4, png)]
   \<and> update_handler lib0 id4 id1 (body0\<lparr>b_imageBase64 := Some (str ''data:image/png;base64,AAAA'')\<rparr>)
         None world1
     = (Inr (updated id4 (body0\<lparr>b_imageBase64 := Some (str ''data:image/png;base64,AAAA'')\<rparr>) None
              ((entry id1 ''Alpha'' True 1)\<lparr>imageId := Some id3\<rparr>)),
        snd (update_handler lib0 id4 id1
              (body0\<lparr>b_imageBase64 := Some (str ''data:image/png;base64,AAAA'')\<rparr>) None world1))
   \<and> str ''data:image/png;base64,AAAA'' \<noteq> []
   \<and> imageBase64 (updated id4 (body0\<lparr>b_imageBase64 := Some (str ''data:image/png;base64,AAAA'')\<rparr>)
         None ((entry id1 ''Alpha'' True 1)\<lparr>imageId := Some id3\<rparr>))
       = str ''data:image/png;base64,AAAA''
   \<and> imageId (updated id4 (body0\<lparr>b_imageBase64 := Some (str ''data:image/png;base64,AAAA'')\<rparr>)
         None ((entry id1 ''Alpha'' True 1)\<lparr>imageId := Some id3\<rparr>)) = None
   \<and> gridfs_files (snd (update_handler lib0 id4 id1
         (body0\<lparr>b_imageBase64 := Some (str ''data:image/png;base64,AAAA'')\<rparr>) None world1)) = []
   \<and> fst (update_handler lib0 id4 id1
         (body0\<lparr>b_imageBase64 := Some (str ''data:image/png;base64,AAAA'')\<rparr>) None
         (world1\<lparr>gridfs_connected := False\<rparr>))
       = Inr (updated id4 (body0\<lparr>b_imageBase64 := Some (str ''data:image/png;base64,AAAA'')\<rparr>) None
              ((entry id1 ''Alpha'' True 1)\<lparr>imageId := Some id3\<rparr>))
   \<and> gridfs_files (snd (update_handler lib0 id4 id1
         (body0\<lparr>b_imageBase64 := Some (str ''data:image/png;base64,AAAA'')\<rparr>) None
         (world1\<lparr>gridfs_connected := False\<rparr>))) = [(id3, png)]"
proof -
  let ?p = "(entry id1 ''Alpha'' True 1)\<lparr>imageId := Some id3\<rparr>"
  let ?s = "str ''data:image/png;base64,AAAA''"
  let ?b = "body0\<lparr>b_imageBase64 := Some ?s\<rparr>"
  let ?w = "world1\<lparr>gridfs_connected := False\<rparr>"
  have s: "?s \<noteq> []"
    by simp
  have v1: "validate lib0 (updated id4 body0 (Some png) ?p) = []"
    by (rule validate_fields [of _ "''Alpha''"]) (simp_all add: assign_body_fields update_tags_def)
  have v2: "validate lib0 (updated id4 ?b None ?p) = []"
    by (rule validate_fields [of _ "''Alpha''"]) (simp_all add: assign_body_fields update_tags_def)
  have u1: "update_handler lib0 id4 id1 body0 (Some png) world1
     = (Inr (updated id4 body0 (Some png) ?p), snd (update_handler lib0 id4 id1 body0 (Some png) world1))"
    by (rule update_handler_pair) (simp_all add: isValid_ids findById_world1 v1)
  have u2: "update_handler lib0 id4 id1 ?b None world1
     = (Inr (updated id4 ?b None ?p), snd (update_handler lib0 id4 id1 ?b None world1))"
    by (rule update_handler_pair) (simp_all add: isValid_ids findById_world1 v2)
  have u3: "update_handler lib0 id4 id1 ?b None ?w
     = (Inr (updated id4 ?b None ?p), snd (update_handler lib0 id4 id1 ?b None ?w))"
    by (rule update_handler_pair) (simp_all add: isValid_ids findById_world1 v2)
  from update_image_paths [THEN conjunct1, rule_format, OF conjI, OF u1 findById_world1(1)]
  have 1: "imageId (updated id4 body0 (Some png) ?p) = Some id4
     \<and> imageBase64 (updated id4 body0 (Some png) ?p) = []
     \<and> gridfs_files (snd (update_handler lib0 id4 id1 body0 (Some png) world1)) = [(id4, png)]"
    by simp
  from update_image_paths [THEN conjunct1, rule_format, OF conjI, OF u2 findById_world1(1)] s
  have 2: "imageBase64 (updated id4 ?b None ?p) = ?s
     \<and> imageId (updated id4 ?b None ?p) = None
     \<and> gridfs_files (snd (update_handler lib0 id4 id1 ?b None world1)) = []"
    by simp
  from update_image_paths [THEN conjunct1, rule_format, OF conjI, OF u3 findById_world1(2)] s
  have 3: "gridfs_files (snd (update_handler lib0 id4 id1 ?b None ?w)) = [(id3, png)]"
    by simp
  from update_image_paths [THEN conjunct2, rule_format, of id1 world1 ?p lib0 id4 body0 png]
  have 4: "gridfs_files (snd (update_handler lib0 id4 id1 body0 (Some png) world1)) = [(id4, png)]"
    by (simp add: isValid_ids findById_world1)
  have f3: "fst (update_handler lib0 id4 id1 ?b None ?w) = Inr (updated id4 ?b None ?p)"
    by (rule update_handler_fst) (simp_all add: isValid_ids findById_world1 v2)
  from u1 u2 f3 1 2 3 4 s show ?thesis
    by (simp add: findById_world1 isValid_ids)
qed

subsection \<open>C6\<close>

text \<open>
  C6. Deleting an existing entry replies with success and removes the entry, whatever the
  blob deletion does; when the deletion of its blob fails, the state is exactly the one
  with the entry removed.
\<close>

theorem delete_despite_blob_failure:
  "isValid i \<and> findById i w = Some p \<longrightarrow>
     fst (delete_handler i w) = Inr i
     \<and> docs (snd (delete_handler i w)) = remove1 p (docs w)
     \<and> (distinct (map pid (docs w)) \<longrightarrow> findById i (snd (delete_handler i w)) = None)
     \<and> (\<forall>f e. imageId p = Some f \<and> deleteFromGridFS f w = Inl e \<longrightarrow>
          delete_handler i w = (Inr i, findByIdAndDelete i w))"
proof
  assume h: "isValid i \<and> findById i w = Some p"
  then have d: "delete_handler i w = (Inr i, findByIdAndDelete i (tryDelete (imageId p) w))"
    by (simp add: delete_handler_ok)
  have 1: "docs (snd (delete_handler i w)) = remove1 p (docs w)"
    using h by (simp add: d findByIdAndDelete_def findById_def remove_first_find)
  have 2: "findById i (snd (delete_handler i w)) = None" if "distinct (map pid (docs w))"
    using that by (simp add: d findByIdAndDelete_def findById_def find_remove_first)
  have 3: "delete_handler i w = (Inr i, findByIdAndDelete i w)"
    if "imageId p = Some f \<and> deleteFromGridFS f w = Inl e" for f e
    using that by (simp add: d tryDelete_def)
  from d 1 2 3 show "fst (delete_handler i w) = Inr i
     \<and> docs (snd (delete_handler i w)) = remove1 p (docs w)
     \<and> (distinct (map pid (docs w)) \<longrightarrow> findById i (snd (delete_handler i w)) = None)
     \<and> (\<forall>f e. imageId p = Some f \<and> deleteFromGridFS f w = Inl e \<longrightarrow>
          delete_handler i w = (Inr i, findByIdAndDelete i w))"
    by simp
qed

theorem delete_despite_blob_failure_witness:
  "isValid id1
   \<and> findById id1 (world1\<lparr>gridfs_connected := False\<rparr>)
       = Some ((entry id1 ''Alpha'' True 1)\<lparr>imageId := Some id3\<rparr>)
   \<and> deleteFromGridFS id3 (world1\<lparr>gridfs_connected := False\<rparr>) = Inl NoConnection
   \<and> distinct (map pid (docs (world1\<lparr>gridfs_connected := False\<rparr>)))
   \<and> delete_handler id1 (world1\<lparr>gridfs_connected := False\<rparr>)
       = (Inr id1, findByIdAndDelete id1 (world1\<lparr>gridfs_connected := False\<rparr>))
   \<and> docs (snd (delete_handler id1 (world1\<lparr>gridfs_connected := False\<rparr>))) = []
   \<and> findById id1 (snd (delete_handler id1 (world1\<lparr>gridfs_connected := False\<rparr>))) = None"
proof -
  have d: "deleteFromGridFS id3 (world1\<lparr>gridfs_connected := False\<rparr>) = Inl NoConnection"
    by (simp add: deleteFromGridFS_def)
  show ?thesis
    using delete_despite_blob_failure [of id1 "world1\<lparr>gridfs_connected := False\<rparr>"
        "(entry id1 ''Alpha'' True 1)\<lparr>imageId := Some id3\<rparr>"] d
    by (auto simp: isValid_ids findById_world1)
qed

subsection \<open>C7\<close>

text \<open>
  C7 (as amended). A filter parameter that is absent or empty is a no-op on its axis
  (category, tags and search: absent or the empty string; featured: absent): the composed
  query holds no condition for it, and the reply to the request with the empty parameter
  is the reply to the request without it. A parameter with a value is applied as given,
  recognized or not: the category by equality, the tags as the comma-separated list, the
  search text through the text index, and featured as true for the string \<open>'true'\<close> and
  as false for every other value.
\<close>

theorem absent_filters_are_noops:
  "(r_category r = None \<or> r_category r = Some [] \<longrightarrow>
      q_category (findWithFilters (build_filters r)) = None)
   \<and> (r_tags r = None \<or> r_tags r = Some [] \<longrightarrow>
      q_tags (findWithFilters (build_filters r)) = None)
   \<and> (r_search r = None \<or> r_search r = Some [] \<longrightarrow>
      q_text (findWithFilters (build_filters r)) = None)
   \<and> (r_featured r = None \<longrightarrow> q_featured (findWithFilters (build_filters r)) = None)
   \<and> list_handler L (r\<lparr>r_category := Some []\<rparr>) w = list_handler L (r\<lparr>r_category := None\<rparr>) w
   \<and> list_handler L (r\<lparr>r_tags := Some []\<rparr>) w = list_handler L (r\<lparr>r_tags := None\<rparr>) w
   \<and> list_handler L (r\<lparr>r_search := Some []\<rparr>) w = list_handler L (r\<lparr>r_search := None\<rparr>) w
   \<and> (r_category r = Some c \<and> c \<noteq> [] \<longrightarrow>
      q_category (findWithFilters (build_filters r)) = Some c)
   \<and> (r_tags r = Some t \<and> t \<noteq> [] \<longrightarrow>
      q_tags (findWithFilters (build_filters r)) = Some (split_on comma t))
   \<and> (r_search r = Some s \<and> s \<noteq> [] \<longrightarrow>
      q_text (findWithFilters (build_filters r)) = Some s)
   \<and> (r_featured r = Some v \<longrightarrow>
      q_featured (findWithFilters (build_filters r)) = Some (v = str ''true''))"
proof -
  have 1: "list_handler L (r\<lparr>r_category := Some []\<rparr>) w = list_handler L (r\<lparr>r_category := None\<rparr>) w"
    by (simp add: list_handler_def list_with_def build_filters_empty)
  have 2: "list_handler L (r\<lparr>r_tags := Some []\<rparr>) w = list_handler L (r\<lparr>r_tags := None\<rparr>) w"
    by (simp add: list_handler_def list_with_def build_filters_empty)
  have 3: "list_handler L (r\<lparr>r_search := Some []\<rparr>) w = list_handler L (r\<lparr>r_search := None\<rparr>) w"
    by (simp add: list_handler_def list_with_def build_filters_empty)
  show ?thesis
    using 1 2 3 by (auto simp: conditions_build)
qed

theorem absent_filters_are_noops_witness:
  "q_category (findWithFilters (build_filters request0)) = None
   \<and> q_tags (findWithFilters (build_filters request0)) = None
   \<and> q_text (findWithFilters (build_filters request0)) = None
   \<and> q_featured (findWithFilters (build_filters request0)) = None
   \<and> list_handler lib0 (request0\<lparr>r_category := Some []\<rparr>) world0
       = list_handler lib0 (request0\<lparr>r_category := None\<rparr>) world0
   \<and> q_category (findWithFilters (build_filters (request0\<lparr>r_category := Some (str ''Foo''),
         r_tags := Some (str ''a,b''), r_search := Some (str ''x''),
         r_featured := Some (str ''yes'')\<rparr>))) = Some (str ''Foo'')
   \<and> q_tags (findWithFilters (build_filters (request0\<lparr>r_category := Some (str ''Foo''),
         r_tags := Some (str ''a,b''), r_search := Some (str ''x''),
         r_featured := Some (str ''yes'')\<rparr>))) = Some [str ''a'', str ''b'']
   \<and> q_text (findWithFilters (build_filters (request0\<lparr>r_category := Some (str ''Foo''),
         r_tags := Some (str ''a,b''), r_search := Some (str ''x''),
         r_featured := Some (str ''yes'')\<rparr>))) = Some (str ''x'')
   \<and> q_featured (findWithFilters (build_filters (request0\<lparr>r_category := Some (str ''Foo''),
         r_tags := Some (str ''a,b''), r_search := Some (str ''x''),
         r_featured := Some (str ''yes'')\<rparr>))) = Some False"
proof -
  have y: "str ''yes'' \<noteq> str ''true''"
    by (simp add: str_simps)
  show ?thesis
    using absent_filters_are_noops [of request0 lib0 world0]
      absent_filters_are_noops [of "request0\<lparr>r_category := Some (str ''Foo''),
         r_tags := Some (str ''a,b''), r_search := Some (str ''x''),
         r_featured := Some (str ''yes'')\<rparr>" lib0 world0 "str ''Foo''" "str ''a,b''" "str ''x''"
         "str ''yes''"]
    by (simp add: split_ab y)
qed

text \<open>
  An unrecognized value is not a no-op: the category \<open>Foo\<close> selects no entry, and
  \<open>featured=yes\<close> selects the entries that are not featured.
\<close>

theorem unrecognized_filter_counterexample:
  "fst (list_handler lib0
       (request0\<lparr>r_category := Some (str ''Foo''), r_page := Some 1, r_limit := Some 10\<rparr>) world0)
     \<noteq> fst (list_handler lib0 (request0\<lparr>r_page := Some 1, r_limit := Some 10\<rparr>) world0)
   \<and> fst (list_handler lib0
       (request0\<lparr>r_featured := Some (str ''yes''), r_page := Some 1, r_limit := Some 10\<rparr>) world0)
     \<noteq> fst (list_handler lib0 (request0\<lparr>r_page := Some 1, r_limit := Some 10\<rparr>) world0)"
proof -
  have a: "\<exists>pg. list_handler lib0
       (request0\<lparr>r_category := Some (str ''Foo''), r_page := Some 1, r_limit := Some 10\<rparr>) world0
     = (Inr \<lparr>l_data = [], l_pagination = pg\<rparr>, world0)"
    using list_with_page [of 1
        "request0\<lparr>r_category := Some (str ''Foo''), r_page := Some 1, r_limit := Some 10\<rparr>"
        10 findWithFilters lib0 "docs world0" "[]"] exec_Foo
    by (simp add: list_handler_def)
  have b: "\<exists>pg. list_handler lib0 (request0\<lparr>r_page := Some 1, r_limit := Some 10\<rparr>) world0
     = (Inr \<lparr>l_data = [entry id1 ''Alpha'' True 1, entry id2 ''Beta'' False 2],
          l_pagination = pg\<rparr>, world0)"
    using list_with_page [of 1 "request0\<lparr>r_page := Some 1, r_limit := Some 10\<rparr>"
        10 findWithFilters lib0 "docs world0" "[entry id1 ''Alpha'' True 1, entry id2 ''Beta'' False 2]"]
      exec_plain
    by (simp add: list_handler_def)
  have c: "\<exists>pg. list_handler lib0
       (request0\<lparr>r_featured := Some (str ''yes''), r_page := Some 1, r_limit := Some 10\<rparr>) world0
     = (Inr \<lparr>l_data = [entry id2 ''Beta'' False 2], l_pagination = pg\<rparr>, world0)"
    using list_with_page [of 1
        "request0\<lparr>r_featured := Some (str ''yes''), r_page := Some 1, r_limit := Some 10\<rparr>"
        10 findWithFilters lib0 "docs world0" "[entry id2 ''Beta'' False 2]"] exec_yes
    by (simp add: list_handler_def)
  from a b c show ?thesis
    by auto
qed

subsection \<open>C8\<close>

text \<open>
  C8. A successful update changes, of the entry it names, only what the body supplies:
  \<open>title\<close>, \<open>description\<close>, \<open>url\<close> and \<open>category\<close> keep their value when absent and
  take the supplied one when present (the first three trimmed), \<open>tags\<close> and \<open>featured\<close>
  keep their value when absent, the image fields keep theirs when neither a file nor a
  non-empty inline image comes; \<open>views\<close>, \<open>likes\<close>, the id, the creation time and the legacy image never change.
  No other document changes, an update that fails changes no document, and keys of the
  body other than the seven the handler reads (a \<open>views\<close> or \<open>likes\<close> key, say) change
  nothing.
\<close>

theorem update_frame:
  "(update_handler L fileId i b upl w = (Inr p', w') \<and> findById i w = Some p \<longrightarrow>
      views p' = views p \<and> likes p' = likes p \<and> pid p' = pid p
      \<and> createdAt p' = createdAt p \<and> image_field p' = image_field p
      \<and> title p' = (case b_title b of None \<Rightarrow> title p | Some t \<Rightarrow> Some (trim t))
      \<and> description p' = (case b_description b of None \<Rightarrow> description p | Some t \<Rightarrow> Some (trim t))
      \<and> url p' = (case b_url b of None \<Rightarrow> url p | Some t \<Rightarrow> Some (trim t))
      \<and> category p' = (case b_category b of None \<Rightarrow> category p | Some c \<Rightarrow> Some c)
      \<and> (b_tags b = TagsAbsent \<longrightarrow> tags p' = tags p)
      \<and> (b_featured b = JUndefined \<longrightarrow> featured p' = featured p)
      \<and> (upl = None \<and> (b_imageBase64 b = None \<or> b_imageBase64 b = Some []) \<longrightarrow>
           imageId p' = imageId p \<and> imageBase64 p' = imageBase64 p)
      \<and> findById i w' = Some p'
      \<and> docs w' = map (\<lambda>q. if pid q = pid p then p' else q) (docs w)
      \<and> (distinct (map pid (docs w)) \<longrightarrow>
           map views (docs w') = map views (docs w) \<and> map likes (docs w') = map likes (docs w)))
   \<and> (update_handler L fileId i b upl w = (Inl e, w') \<longrightarrow> docs w' = docs w)
   \<and> update_handler L fileId i (b\<lparr>b_other := x\<rparr>) upl w = update_handler L fileId i b upl w"
proof -
  have A: "views p' = views p \<and> likes p' = likes p \<and> pid p' = pid p
      \<and> createdAt p' = createdAt p \<and> image_field p' = image_field p
      \<and> title p' = (case b_title b of None \<Rightarrow> title p | Some t \<Rightarrow> Some (trim t))
      \<and> description p' = (case b_description b of None \<Rightarrow> description p | Some t \<Rightarrow> Some (trim t))
      \<and> url p' = (case b_url b of None \<Rightarrow> url p | Some t \<Rightarrow> Some (trim t))
      \<and> category p' = (case b_category b of None \<Rightarrow> category p | Some c \<Rightarrow> Some c)
      \<and> (b_tags b = TagsAbsent \<longrightarrow> tags p' = tags p)
      \<and> (b_featured b = JUndefined \<longrightarrow> featured p' = featured p)
      \<and> (upl = None \<and> (b_imageBase64 b = None \<or> b_imageBase64 b = Some []) \<longrightarrow>
           imageId p' = imageId p \<and> imageBase64 p' = imageBase64 p)
      \<and> findById i w' = Some p'
      \<and> docs w' = map (\<lambda>q. if pid q = pid p then p' else q) (docs w)
      \<and> (distinct (map pid (docs w)) \<longrightarrow>
           map views (docs w') = map views (docs w) \<and> map likes (docs w') = map likes (docs w))"
    if h: "update_handler L fileId i b upl w = (Inr p', w') \<and> findById i w = Some p"
  proof -
    from h have u: "update_handler L fileId i b upl w = (Inr p', w')"
      and f: "findById i w = Some p"
      by simp_all
    from update_handler_Inr [OF u f]
    have p': "p' = updated fileId b upl p"
      and d: "docs w' = map (\<lambda>q. if pid q = pid p then p' else q) (docs w)"
      by simp_all
    have m: "p \<in> set (docs w)"
      using f by (rule findById_mem)
    have c: "views p' = views p" "likes p' = likes p"
      by (simp_all add: p')
    have fr: "map views (docs w') = map views (docs w) \<and> map likes (docs w') = map likes (docs w)"
      if "distinct (map pid (docs w))"
      unfolding d
      using map_replace_same [OF that m, of views p'] map_replace_same [OF that m, of likes p'] c
      by simp
    have fields: "pid p' = pid p \<and> createdAt p' = createdAt p \<and> image_field p' = image_field p
      \<and> title p' = (case b_title b of None \<Rightarrow> title p | Some t \<Rightarrow> Some (trim t))
      \<and> description p' = (case b_description b of None \<Rightarrow> description p | Some t \<Rightarrow> Some (trim t))
      \<and> url p' = (case b_url b of None \<Rightarrow> url p | Some t \<Rightarrow> Some (trim t))
      \<and> category p' = (case b_category b of None \<Rightarrow> category p | Some c \<Rightarrow> Some c)
      \<and> (b_tags b = TagsAbsent \<longrightarrow> tags p' = tags p)
      \<and> (b_featured b = JUndefined \<longrightarrow> featured p' = featured p)"
      by (simp add: p' assign_body_fields update_tags_def)
    have img: "imageId p' = imageId p \<and> imageBase64 p' = imageBase64 p"
      if "upl = None \<and> (b_imageBase64 b = None \<or> b_imageBase64 b = Some [])"
      using that by (auto simp: p' updated_image split: option.splits)
    show ?thesis
      using c fields img fr d findById_update [OF u] by blast
  qed
  have B: "docs w' = docs w" if "update_handler L fileId i b upl w = (Inl e, w')"
    using that by (rule update_handler_Inl)
  from A B update_handler_other [where b = b and x = x] show ?thesis
    by blast
qed

theorem update_frame_witness:
  "update_handler lib0 id3 id2 (body0\<lparr>b_title := Some (str '' Delta '')\<rparr>) None world0
     = (Inr (updated id3 (body0\<lparr>b_title := Some (str '' Delta '')\<rparr>) None (entry id2 ''Beta'' False 2)),
        snd (update_handler lib0 id3 id2 (body0\<lparr>b_title := Some (str '' Delta '')\<rparr>) None world0))
   \<and> findById id2 world0 = Some (entry id2 ''Beta'' False 2)
   \<and> updated id3 (body0\<lparr>b_title := Some (str '' Delta '')\<rparr>) None (entry id2 ''Beta'' False 2)
       = (entry id2 ''Beta'' False 2)\<lparr>title := Some (str ''Delta'')\<rparr>
   \<and> b_tags (body0\<lparr>b_title := Some (str '' Delta '')\<rparr>) = TagsAbsent
   \<and> b_featured (body0\<lparr>b_title := Some (str '' Delta '')\<rparr>) = JUndefined
   \<and> b_imageBase64 (body0\<lparr>b_title := Some (str '' Delta '')\<rparr>) = None
   \<and> distinct (map pid (docs world0))
   \<and> docs (snd (update_handler lib0 id3 id2 (body0\<lparr>b_title := Some (str '' Delta '')\<rparr>) None world0))
       = [entry id1 ''Alpha'' True 1, (entry id2 ''Beta'' False 2)\<lparr>title := Some (str ''Delta'')\<rparr>]
   \<and> map views (docs (snd (update_handler lib0 id3 id2
         (body0\<lparr>b_title := Some (str '' Delta '')\<rparr>) None world0))) = [0, 0]
   \<and> map likes (docs (snd (update_handler lib0 id3 id2
         (body0\<lparr>b_title := Some (str '' Delta '')\<rparr>) None world0))) = [0, 0]
   \<and> update_handler lib0 id3 id3 (body0\<lparr>b_title := Some (str '' Delta '')\<rparr>) None world0
       = (Inl NotFound, world0)"
proof -
  let ?b = "body0\<lparr>b_title := Some (str '' Delta '')\<rparr>"
  let ?p = "entry id2 ''Beta'' False 2"
  have e: "updated id3 ?b None ?p = ?p\<lparr>title := Some (str ''Delta'')\<rparr>"
    by (simp add: updated_def assign_body_def update_tags_def entry_def blank_def)
  have v: "validate lib0 (updated id3 ?b None ?p) = []"
    by (rule validate_fields [of _ "''Delta''"]) (simp_all add: e)
  have u: "update_handler lib0 id3 id2 ?b None world0
     = (Inr (updated id3 ?b None ?p), snd (update_handler lib0 id3 id2 ?b None world0))"
    by (rule update_handler_pair) (simp_all add: isValid_ids findById_world0 v)
  have n: "update_handler lib0 id3 id3 ?b None world0 = (Inl NotFound, world0)"
    by (simp add: update_handler_def isValid_ids findById_world0)
  have d: "distinct (map pid (docs world0))"
    by (simp add: docs_world0 ids_distinct)
  have m: "map views (docs world0) = [0, 0]" "map likes (docs world0) = [0, 0]"
    by (simp_all add: docs_world0)
  from update_frame [THEN conjunct1, rule_format, OF conjI, OF u findById_world0(2)] d m
  have "docs (snd (update_handler lib0 id3 id2 ?b None world0))
       = [entry id1 ''Alpha'' True 1, ?p\<lparr>title := Some (str ''Delta'')\<rparr>]
   \<and> map views (docs (snd (update_handler lib0 id3 id2 ?b None world0))) = [0, 0]
   \<and> map likes (docs (snd (update_handler lib0 id3 id2 ?b None world0))) = [0, 0]"
    by (simp add: docs_world0 ids_distinct e)
  then show ?thesis
    using u e n d by (simp add: findById_world0)
qed

subsection \<open>C9\<close>

text \<open>
  C9. A read that succeeds returns and stores the entry with its view counter raised by
  exactly 1; a read that fails leaves the state as it was; three reads in a row of a stored
  entry with \<open>views = 0\<close> leave \<open>views = 3\<close>.
\<close>

theorem read_increments_views:
  "(findById i w = Some p \<and> get_handler L i w = (Inr p', w') \<longrightarrow>
      p' = p\<lparr>views := views p + 1\<rparr> \<and> findById i w' = Some p')
   \<and> (get_handler L i w = (Inl e, w') \<longrightarrow> w' = w)
   \<and> (isValid i \<and> findById i w = Some p \<and> validate L p = [] \<and> views p = 0 \<longrightarrow>
        map_option views
          (findById i (snd (get_handler L i (snd (get_handler L i (snd (get_handler L i w)))))))
        = Some 3)"
proof -
  have A: "p' = p\<lparr>views := views p + 1\<rparr> \<and> findById i w' = Some p'"
    if a: "findById i w = Some p \<and> get_handler L i w = (Inr p', w')"
  proof -
    from a have s: "save L (incrementViews p) w = Inr w'" and p': "p' = incrementViews p"
      by (auto simp: get_handler_def Let_def split: if_splits sum.splits)
    show ?thesis
      using a s p' findById_save [of i w p "incrementViews p" L w']
      by (simp add: incrementViews_def)
  qed
  have B: "w' = w" if "get_handler L i w = (Inl e, w')"
    using that
    by (auto simp: get_handler_def Let_def split: if_splits option.splits sum.splits)
  have C: "map_option views
          (findById i (snd (get_handler L i (snd (get_handler L i (snd (get_handler L i w)))))))
        = Some 3"
    if a: "isValid i \<and> findById i w = Some p \<and> validate L p = [] \<and> views p = 0"
  proof -
    let ?w1 = "snd (get_handler L i w)"
    let ?w2 = "snd (get_handler L i ?w1)"
    let ?w3 = "snd (get_handler L i ?w2)"
    have 1: "findById i ?w1 = Some (incrementViews p)"
      using a by (simp add: get_handler_ok_find)
    have 2: "findById i ?w2 = Some (incrementViews (incrementViews p))"
      using a 1 by (simp add: get_handler_ok_find validate_incrementViews)
    have 3: "findById i ?w3 = Some (incrementViews (incrementViews (incrementViews p)))"
      using a 2 by (simp add: get_handler_ok_find validate_incrementViews)
    show ?thesis
      using a by (simp add: 3)
  qed
  from A B C show ?thesis
    by blast
qed

theorem read_increments_views_witness:
  "findById id1 world0 = Some (entry id1 ''Alpha'' True 1)
   \<and> get_handler lib0 id1 world0 =
       (Inr (incrementViews (entry id1 ''Alpha'' True 1)), snd (get_handler lib0 id1 world0))
   \<and> incrementViews (entry id1 ''Alpha'' True 1) = (entry id1 ''Alpha'' True 1)\<lparr>views := 1\<rparr>
   \<and> findById id1 (snd (get_handler lib0 id1 world0))
       = Some (incrementViews (entry id1 ''Alpha'' True 1))
   \<and> get_handler lib0 id3 world0 = (Inl NotFound, world0)
   \<and> isValid id1 \<and> validate lib0 (entry id1 ''Alpha'' True 1) = []
   \<and> views (entry id1 ''Alpha'' True 1) = 0
   \<and> map_option views
        (findById id1 (snd (get_handler lib0 id1 (snd (get_handler lib0 id1
           (snd (get_handler lib0 id1 world0))))))) = Some 3"
proof -
  have v: "validate lib0 (entry id1 ''Alpha'' True 1) = []"
    by (simp add: validate_entry)
  have g: "get_handler lib0 id1 world0 =
       (Inr (incrementViews (entry id1 ''Alpha'' True 1)), snd (get_handler lib0 id1 world0))"
    by (simp add: get_handler_ok isValid_ids findById_world0 v)
  have n: "get_handler lib0 id3 world0 = (Inl NotFound, world0)"
    by (simp add: get_handler_def isValid_ids findById_world0)
  show ?thesis
    using read_increments_views [of id1 world0 "entry id1 ''Alpha'' True 1" lib0
        "incrementViews (entry id1 ''Alpha'' True 1)" "snd (get_handler lib0 id1 world0)"
        NotFound]
      read_increments_views [of id3 world0 "entry id1 ''Alpha'' True 1" lib0
        "incrementViews (entry id1 ''Alpha'' True 1)" world0 NotFound]
      g n v
    by (simp add: isValid_ids findById_world0)
qed

subsection \<open>C10\<close>

text \<open>
  C10. After a successful create, and after a successful update whose body supplies
  \<open>featured\<close>, the stored flag is true exactly when the supplied value is the boolean
  \<open>true\<close> or the string \<open>'true'\<close>; every other supplied value, and on create an absent
  one, stores false.
\<close>

theorem featured_flag_stored:
  "(create_handler L now newId fileId b upl w = (Inr p, w') \<longrightarrow>
      (featured p \<longleftrightarrow> b_featured b = JBool True \<or> b_featured b = JStr (str ''true''))
      \<and> last (docs w') = p)
   \<and> (update_handler L fid i c upl' v = (Inr q, v') \<and> b_featured c \<noteq> JUndefined \<longrightarrow>
      (featured q \<longleftrightarrow> b_featured c = JBool True \<or> b_featured c = JStr (str ''true''))
      \<and> findById i v' = Some q)"
proof -
  have A: "(featured p \<longleftrightarrow> b_featured b = JBool True \<or> b_featured b = JStr (str ''true''))
      \<and> last (docs w') = p"
    if "create_handler L now newId fileId b upl w = (Inr p, w')"
    using create_handler_Inr [OF that] by (auto simp: featured_flag_def)
  have B: "(featured q \<longleftrightarrow> b_featured c = JBool True \<or> b_featured c = JStr (str ''true''))
      \<and> findById i v' = Some q"
    if h: "update_handler L fid i c upl' v = (Inr q, v') \<and> b_featured c \<noteq> JUndefined"
  proof -
    from h have u: "update_handler L fid i c upl' v = (Inr q, v')"
      by simp
    from update_handler_Inr_found [OF u] obtain p0 where p0: "findById i v = Some p0"
      by blast
    have "q = updated fid c upl' p0"
      using update_handler_Inr [OF u p0] by simp
    then have "featured q = featured_flag (b_featured c)"
      using h by (simp add: assign_body_fields)
    then show ?thesis
      using findById_update [OF u] by (auto simp: featured_flag_def)
  qed
  from A B show ?thesis
    by blast
qed

theorem featured_flag_stored_witness:
  "create_handler lib0 5 id3 id3 (body1 (JStr (str ''true''))) None world0
     = (Inr (new_Portfolio id3 5 (body1 (JStr (str ''true'')))),
        world0\<lparr>docs := docs world0 @ [new_Portfolio id3 5 (body1 (JStr (str ''true'')))]\<rparr>)
   \<and> featured (new_Portfolio id3 5 (body1 (JStr (str ''true''))))
   \<and> create_handler lib0 5 id3 id3 (body1 (JStr (str ''True''))) None world0
     = (Inr (new_Portfolio id3 5 (body1 (JStr (str ''True'')))),
        world0\<lparr>docs := docs world0 @ [new_Portfolio id3 5 (body1 (JStr (str ''True'')))]\<rparr>)
   \<and> \<not> featured (new_Portfolio id3 5 (body1 (JStr (str ''True''))))
   \<and> \<not> featured (new_Portfolio id3 5 (body1 JUndefined))
   \<and> fst (update_handler lib0 id3 id2 (body0\<lparr>b_featured := JBool True\<rparr>) None world0)
     = Inr (updated id3 (body0\<lparr>b_featured := JBool True\<rparr>) None (entry id2 ''Beta'' False 2))
   \<and> b_featured (body0\<lparr>b_featured := JBool True\<rparr>) \<noteq> JUndefined
   \<and> featured (updated id3 (body0\<lparr>b_featured := JBool True\<rparr>) None (entry id2 ''Beta'' False 2))
   \<and> findById id2 (snd (update_handler lib0 id3 id2 (body0\<lparr>b_featured := JBool True\<rparr>) None world0))
     = Some (updated id3 (body0\<lparr>b_featured := JBool True\<rparr>) None (entry id2 ''Beta'' False 2))"
proof -
  have f [simp]: "b_featured (body1 x) = x" for x
    by (simp add: body1_def body0_def)
  note c1 = create_body1 [of "JStr (str ''true'')"]
  note c2 = create_body1 [of "JStr (str ''True'')"]
  note c3 = create_body1 [of JUndefined]
  note u = update_world0 [of "JBool True"]
  have 1: "featured (new_Portfolio id3 5 (body1 (JStr (str ''true''))))"
    using featured_flag_stored [THEN conjunct1, rule_format, OF c1] by simp
  have 2: "\<not> featured (new_Portfolio id3 5 (body1 (JStr (str ''True''))))"
    using featured_flag_stored [THEN conjunct1, rule_format, OF c2] by (simp add: str_simps)
  have 3: "\<not> featured (new_Portfolio id3 5 (body1 JUndefined))"
    using featured_flag_stored [THEN conjunct1, rule_format, OF c3] by simp
  have 4: "featured (updated id3 (body0\<lparr>b_featured := JBool True\<rparr>) None (entry id2 ''Beta'' False 2))
    \<and> findById id2 (snd (update_handler lib0 id3 id2 (body0\<lparr>b_featured := JBool True\<rparr>) None world0))
     = Some (updated id3 (body0\<lparr>b_featured := JBool True\<rparr>) None (entry id2 ''Beta'' False 2))"
    using featured_flag_stored [THEN conjunct2, rule_format, of lib0 id3 id2
        "body0\<lparr>b_featured := JBool True\<rparr>" None world0] u
    by simp
  from c1 c2 1 2 3 4 u show ?thesis
    by simp
qed

end
